theory Spec2Isabelle
  imports
    Complex_Main
    "HOL-Library.AList"
    "HOL-Library.Multiset"
    "HOL-Library.Sublist"
    "HOL-Library.Char_ord"
    "HOL-Library.List_Lexorder"
begin

section \<open>JavaScript values\<close>

text \<open>
  The handlers of \<^verbatim>\<open>api/index.js\<close> work on parsed JSON bodies and on object literals
  built from them. A value is one of the JSON kinds, or \<^verbatim>\<open>undefined\<close> (what reading an
  absent property gives). Numbers are the rationals that the finite doubles denote;
  rounding is not modelled. Objects are association lists, read with \<open>get_prop\<close>.
\<close>

datatype js =
    JUndefined
  | JNull
  | JBool bool
  | JNum rat
  | JStr string
  | JArr "js list"
  | JObj "(string \<times> js) list"

type_synonym fields = "(string \<times> js) list"

text \<open>\<^verbatim>\<open>obj.k\<close> on a plain object: the stored value, or \<^verbatim>\<open>undefined\<close>.\<close>

definition get_prop :: "fields \<Rightarrow> string \<Rightarrow> js" where
  "get_prop obj k = (case map_of obj k of None \<Rightarrow> JUndefined | Some v \<Rightarrow> v)"

text \<open>JavaScript truthiness, as used by \<^verbatim>\<open>!x\<close> and \<^verbatim>\<open>x || y\<close>.\<close>

fun truthy :: "js \<Rightarrow> bool" where
  "truthy JUndefined = False"
| "truthy JNull = False"
| "truthy (JBool b) = b"
| "truthy (JNum r) = (r \<noteq> 0)"
| "truthy (JStr s) = (s \<noteq> [])"
| "truthy (JArr _) = True"
| "truthy (JObj _) = True"

text \<open>\<^verbatim>\<open>a || b\<close>\<close>

definition js_or :: "js \<Rightarrow> js \<Rightarrow> js" where
  "js_or a b = (if truthy a then a else b)"

subsection \<open>Numbers and dates as strings\<close>

definition digit_char :: "nat \<Rightarrow> char" where
  "digit_char d = ''0123456789'' ! (d mod 10)"

text \<open>The decimal string of a non-negative integer, as string concatenation with
  \<^verbatim>\<open>Date.now()\<close> produces it.\<close>

function show_nat :: "nat \<Rightarrow> string" where
  "show_nat n = (if n < 10 then [digit_char n] else show_nat (n div 10) @ [digit_char n])"
  by pat_completeness auto
termination
  by (relation "measure (\<lambda>n. n)") auto

declare show_nat.simps [simp del]

text \<open>Left padding with zeros to a width.\<close>

definition pad :: "nat \<Rightarrow> string \<Rightarrow> string" where
  "pad w s = replicate (w - length s) (CHR ''0'') @ s"

text \<open>The civil date (year, month, day) of a day count since 1970-01-01, computed in
  the proleptic Gregorian calendar from the day of the 400-year era (\<open>doe\<close>), the year of
  the era (\<open>yoe\<close>), the day of the year counted from 1 March (\<open>doy\<close>) and the month
  counted from March (\<open>mp\<close>).\<close>

definition doe_of :: "nat \<Rightarrow> nat" where
  "doe_of z = z mod 146097"

definition yoe_of :: "nat \<Rightarrow> nat" where
  "yoe_of doe = (doe - doe div 1460 + doe div 36524 - doe div 146096) div 365"

definition doy_of :: "nat \<Rightarrow> nat \<Rightarrow> nat" where
  "doy_of doe yoe = doe - (365 * yoe + yoe div 4 - yoe div 100)"

definition mp_of :: "nat \<Rightarrow> nat" where
  "mp_of doy = (5 * doy + 2) div 153"

definition day_of :: "nat \<Rightarrow> nat \<Rightarrow> nat" where
  "day_of doy mp = doy - (153 * mp + 2) div 5 + 1"

definition month_of :: "nat \<Rightarrow> nat" where
  "month_of mp = (if mp < 10 then mp + 3 else mp - 9)"

definition year_of :: "nat \<Rightarrow> nat \<Rightarrow> nat \<Rightarrow> nat" where
  "year_of era yoe m = yoe + era * 400 + (if m \<le> 2 then 1 else 0)"

definition civil_of_shifted :: "nat \<Rightarrow> nat \<times> nat \<times> nat" where
  "civil_of_shifted z =
     (year_of (z div 146097) (yoe_of (doe_of z))
        (month_of (mp_of (doy_of (doe_of z) (yoe_of (doe_of z))))),
      month_of (mp_of (doy_of (doe_of z) (yoe_of (doe_of z)))),
      day_of (doy_of (doe_of z) (yoe_of (doe_of z)))
        (mp_of (doy_of (doe_of z) (yoe_of (doe_of z)))))"

definition civil_from_days :: "nat \<Rightarrow> nat \<times> nat \<times> nat" where
  "civil_from_days z0 = civil_of_shifted (z0 + 719468)"

text \<open>\<^verbatim>\<open>new Date(ms).toISOString()\<close> for a time at or after the epoch.\<close>

definition toISOString :: "nat \<Rightarrow> string" where
  "toISOString t =
     (case civil_from_days (t div 86400000) of (y, m, d) \<Rightarrow>
        (if y \<le> 9999 then pad 4 (show_nat y) else CHR ''+'' # pad 6 (show_nat y))
        @ ''-'' @ pad 2 (show_nat m) @ ''-'' @ pad 2 (show_nat d)
        @ ''T'' @ pad 2 (show_nat (t div 3600000 mod 24))
        @ '':'' @ pad 2 (show_nat (t div 60000 mod 60))
        @ '':'' @ pad 2 (show_nat (t div 1000 mod 60))
        @ ''.'' @ pad 3 (show_nat (t mod 1000)) @ ''Z'')"

text \<open>\<^verbatim>\<open>s.split(c)\<close> for a one-character separator.\<close>

fun split_on :: "char \<Rightarrow> string \<Rightarrow> string list" where
  "split_on c [] = [[]]"
| "split_on c (x # xs) =
     (if x = c then [] # split_on c xs
      else (case split_on c xs of [] \<Rightarrow> [[x]] | w # ws \<Rightarrow> (x # w) # ws))"

section \<open>The document store\<close>

text \<open>
  The Document Store is an external collaborator (the Admin SDK's Firestore client).
  Its operations are modelled after the SDK's documented behaviour, for the calls that
  \<^verbatim>\<open>api/index.js\<close> makes: \<^verbatim>\<open>doc\<close>, \<^verbatim>\<open>get\<close>, \<^verbatim>\<open>set\<close>, \<^verbatim>\<open>update\<close> with plain values and with the
  \<^verbatim>\<open>FieldValue.increment\<close> and \<^verbatim>\<open>FieldValue.arrayUnion\<close> transforms, and an equality query
  with \<^verbatim>\<open>orderBy\<close>. A document is addressed by its path below the collection; the
  documents of a collection are an association list from paths to field lists.
\<close>

type_synonym path = "string list"

type_synonym collection = "(path \<times> fields) list"

record store =
  users :: collection
  projects :: collection

datatype cname = Users | Projects

definition coll :: "cname \<Rightarrow> store \<Rightarrow> collection" where
  "coll c st = (case c of Users \<Rightarrow> users st | Projects \<Rightarrow> projects st)"

definition put_coll :: "cname \<Rightarrow> collection \<Rightarrow> store \<Rightarrow> store" where
  "put_coll c docs st =
     (case c of Users \<Rightarrow> st\<lparr>users := docs\<rparr> | Projects \<Rightarrow> st\<lparr>projects := docs\<rparr>)"

subsection \<open>Document references\<close>

fun has_dslash :: "string \<Rightarrow> bool" where
  "has_dslash (a # b # xs) = ((a = CHR ''/'' \<and> b = CHR ''/'') \<or> has_dslash (b # xs))"
| "has_dslash _ = False"

text \<open>
  \<^verbatim>\<open>collection.doc(x)\<close>: the argument must be a non-empty string without \<^verbatim>\<open>//\<close>; it is
  split at \<^verbatim>\<open>/\<close>, empty segments are dropped, and the result must have an odd number
  of segments to address a document. Otherwise \<^verbatim>\<open>doc\<close> throws (\<open>None\<close>).
\<close>

definition doc_path :: "js \<Rightarrow> path option" where
  "doc_path v =
     (case v of
        JStr s \<Rightarrow>
          (if s = [] \<or> has_dslash s then None
           else if odd (length (filter (\<lambda>w. w \<noteq> []) (split_on (CHR ''/'') s)))
                then Some (filter (\<lambda>w. w \<noteq> []) (split_on (CHR ''/'') s))
                else None)
      | _ \<Rightarrow> None)"

subsection \<open>Writes\<close>

text \<open>
  What the SDK checks in the data of a write before anything is sent. Every value is
  visited with the length \<open>s\<close> of the field path that leads to it (a top-level field
  has length 1; a map key and an array position each add one), and the write is
  refused when a path is longer than \<open>max_depth + 1\<close>, when a value is \<^verbatim>\<open>undefined\<close>
  (\<^verbatim>\<open>ignoreUndefinedProperties\<close> is never set in \<^verbatim>\<open>api/index.js\<close>), or when a map has an
  empty field name. What the server refuses beyond that is not modelled here: it is a
  fault of the store call (see \<open>store_fault\<close> below).
\<close>

definition max_depth :: nat where
  "max_depth = 20"

fun storable :: "nat \<Rightarrow> js \<Rightarrow> bool"
  and storable_list :: "nat \<Rightarrow> js list \<Rightarrow> bool"
  and storable_fields :: "nat \<Rightarrow> fields \<Rightarrow> bool" where
  "storable s JUndefined = False"
| "storable s JNull = (s - 1 \<le> max_depth)"
| "storable s (JBool _) = (s - 1 \<le> max_depth)"
| "storable s (JNum _) = (s - 1 \<le> max_depth)"
| "storable s (JStr _) = (s - 1 \<le> max_depth)"
| "storable s (JArr xs) = (s - 1 \<le> max_depth \<and> storable_list (Suc s) xs)"
| "storable s (JObj fs) = (s - 1 \<le> max_depth \<and> storable_fields (Suc s) fs)"
| "storable_list s [] = True"
| "storable_list s (x # xs) = (storable s x \<and> storable_list s xs)"
| "storable_fields s [] = True"
| "storable_fields s (kv # fs) = (fst kv \<noteq> [] \<and> storable s (snd kv) \<and> storable_fields s fs)"

text \<open>\<^verbatim>\<open>ref.set(data)\<close>: replaces the document, or creates it. (The SDK's error texts are
  abbreviated throughout.)\<close>

definition doc_set :: "collection \<Rightarrow> path \<Rightarrow> fields \<Rightarrow> string + collection" where
  "doc_set c p d =
     (if storable_fields 1 d then Inr (AList.update p d c)
      else Inl ''Value for argument data is not a valid Firestore document'')"

text \<open>The right-hand sides of an \<^verbatim>\<open>update\<close>: a plain value,
  \<^verbatim>\<open>FieldValue.increment(n)\<close> or \<^verbatim>\<open>FieldValue.arrayUnion(...xs)\<close>.\<close>

datatype fieldop = SetTo js | Increment rat | ArrayUnion "js list"

definition union_append :: "js list \<Rightarrow> js list \<Rightarrow> js list" where
  "union_append ys xs = foldl (\<lambda>acc x. if x \<in> set acc then acc else acc @ [x]) ys xs"

text \<open>\<^verbatim>\<open>Number.isSafeInteger\<close>: an integer of magnitude at most \<open>2^53 - 1\<close>. The SDK
  stores such a number as an integer and every other number as a double.\<close>

definition safe_integer :: "rat \<Rightarrow> bool" where
  "safe_integer r = (of_int \<lfloor>r\<rfloor> = r \<and> \<bar>r\<bar> \<le> 9007199254740991)"

text \<open>
  The new value of a field from its old one (\<open>JUndefined\<close> when the field is absent).
  \<^verbatim>\<open>increment\<close> adds to a number and otherwise sets the operand. The store adds
  integers in 64 bits and, as soon as one side is a double, in IEEE-754 doubles: the
  sum is the exact one when both sides are safe integers and the sum has magnitude at
  most \<open>2^53\<close>, whichever way the two are stored. Every other sum is what the store's
  arithmetic gives, the parameter \<open>add\<close>. \<^verbatim>\<open>arrayUnion\<close> appends the elements not yet in
  the array and otherwise sets the array of the elements.
\<close>

fun apply_op :: "(rat \<Rightarrow> rat \<Rightarrow> rat) \<Rightarrow> fieldop \<Rightarrow> js \<Rightarrow> js" where
  "apply_op add (SetTo v) old = v"
| "apply_op add (Increment n) old =
     (case old of
        JNum m \<Rightarrow>
          (if safe_integer m \<and> safe_integer n \<and> \<bar>m + n\<bar> \<le> 9007199254740992
           then JNum (m + n) else JNum (add m n))
      | _ \<Rightarrow> JNum n)"
| "apply_op add (ArrayUnion xs) old =
     (case old of JArr ys \<Rightarrow> JArr (union_append ys xs) | _ \<Rightarrow> JArr (union_append [] xs))"

text \<open>The values of an \<^verbatim>\<open>update\<close> are checked like those of a \<^verbatim>\<open>set\<close>, each under its key
  as a path of length 1; the elements of an \<^verbatim>\<open>arrayUnion\<close> are checked on their own,
  without a path.\<close>

fun op_storable :: "fieldop \<Rightarrow> bool" where
  "op_storable (SetTo v) = storable 1 v"
| "op_storable (Increment n) = True"
| "op_storable (ArrayUnion xs) = storable_list 0 xs"

text \<open>A key of the object given to \<^verbatim>\<open>update\<close> is a field path: segments separated by
  dots, none of them empty, without any of the characters \<^verbatim>\<open>*~/[]\<close>.\<close>

definition field_path :: "string \<Rightarrow> string list option" where
  "field_path k =
     (if k = [] \<or> (\<exists>ch \<in> set k. ch \<in> set ''*~/[]'') \<or> [] \<in> set (split_on (CHR ''.'') k)
      then None else Some (split_on (CHR ''.'') k))"

text \<open>Writing at a field path: intermediate fields that are not maps are replaced by
  maps.\<close>

fun upd_path :: "string list \<Rightarrow> (js \<Rightarrow> js) \<Rightarrow> fields \<Rightarrow> fields" where
  "upd_path [] f flds = flds"
| "upd_path [k] f flds = AList.update k (f (get_prop flds k)) flds"
| "upd_path (k # k' # ks) f flds =
     AList.update k
       (JObj (upd_path (k' # ks) f (case get_prop flds k of JObj sub \<Rightarrow> sub | _ \<Rightarrow> [])))
       flds"

definition apply_updates ::
  "(rat \<Rightarrow> rat \<Rightarrow> rat) \<Rightarrow> fields \<Rightarrow> (string list \<times> fieldop) list \<Rightarrow> fields" where
  "apply_updates add d ups = foldl (\<lambda>acc u. upd_path (fst u) (apply_op add (snd u)) acc) d ups"

definition no_conflicts :: "string list list \<Rightarrow> bool" where
  "no_conflicts ps = (distinct ps \<and> (\<forall>p \<in> set ps. \<forall>q \<in> set ps. p \<noteq> q \<longrightarrow> \<not> prefix p q))"

text \<open>\<^verbatim>\<open>ref.update(data)\<close>: the data must name at least one field, hold storable
  values under valid field paths of which none is a prefix of another, and the
  document must exist. The named fields are written; all others stay.\<close>

definition doc_update ::
  "(rat \<Rightarrow> rat \<Rightarrow> rat) \<Rightarrow> collection \<Rightarrow> path \<Rightarrow> (string \<times> fieldop) list
     \<Rightarrow> string + collection" where
  "doc_update add c p ups =
     (if ups = [] then Inl ''At least one field must be updated''
      else if \<not> list_all (\<lambda>u. op_storable (snd u)) ups
      then Inl ''Value for argument dataOrField is not a valid Firestore value''
      else (case those (map (\<lambda>u. field_path (fst u)) ups) of
              None \<Rightarrow> Inl ''Invalid field path''
            | Some ps \<Rightarrow>
                (if \<not> no_conflicts ps then Inl ''Field was specified multiple times''
                 else (case map_of c p of
                         None \<Rightarrow> Inl ''NOT_FOUND: No document to update''
                       | Some d \<Rightarrow>
                           Inr (AList.update p (apply_updates add d (zip ps (map snd ups))) c)))))"

subsection \<open>Queries\<close>

fun insert_by :: "('a \<Rightarrow> 'a \<Rightarrow> bool) \<Rightarrow> 'a \<Rightarrow> 'a list \<Rightarrow> 'a list" where
  "insert_by le x [] = [x]"
| "insert_by le x (y # ys) = (if le x y then x # y # ys else y # insert_by le x ys)"

fun sort_by :: "('a \<Rightarrow> 'a \<Rightarrow> bool) \<Rightarrow> 'a list \<Rightarrow> 'a list" where
  "sort_by le [] = []"
| "sort_by le (x # xs) = insert_by le x (sort_by le xs)"

text \<open>
  The store orders field values by an order of its own, \<open>vle\<close>, a parameter here.
  In a descending \<^verbatim>\<open>orderBy(f, 'desc')\<close> a document comes before another when its
  \<open>f\<close> is strictly greater; documents with equivalent values come in descending order
  of their names.
\<close>

definition doc_before ::
  "(js \<Rightarrow> js \<Rightarrow> bool) \<Rightarrow> string \<Rightarrow> path \<times> fields \<Rightarrow> path \<times> fields \<Rightarrow> bool" where
  "doc_before vle f x y =
     (if vle (get_prop (snd x) f) (get_prop (snd y) f) \<and> vle (get_prop (snd y) f) (get_prop (snd x) f)
      then fst y \<le> fst x
      else vle (get_prop (snd y) f) (get_prop (snd x) f))"

text \<open>\<^verbatim>\<open>collection.where(f1, '==', v).orderBy(f2, 'desc').get()\<close>: the documents directly
  in the collection whose \<open>f1\<close> equals \<open>v\<close> and that have a field \<open>f2\<close> (an \<^verbatim>\<open>orderBy\<close>
  leaves out the documents without the field), in the order above.\<close>

definition query_matches :: "string \<Rightarrow> js \<Rightarrow> string \<Rightarrow> path \<times> fields \<Rightarrow> bool" where
  "query_matches f1 v f2 kd =
     (length (fst kd) = 1 \<and> map_of (snd kd) f1 = Some v \<and> map_of (snd kd) f2 \<noteq> None)"

definition query_desc ::
  "(js \<Rightarrow> js \<Rightarrow> bool) \<Rightarrow> collection \<Rightarrow> string \<Rightarrow> js \<Rightarrow> string \<Rightarrow> fields list" where
  "query_desc vle c f1 v f2 =
     map snd (sort_by (doc_before vle f2) (filter (query_matches f1 v f2) c))"

section \<open>Requests, effects and responses\<close>

text \<open>
  What a handler gets from outside within one request: the readings of the clock in
  the order the handler takes them (\<^verbatim>\<open>Date.now()\<close> and \<^verbatim>\<open>new Date()\<close>, in milliseconds),
  whether the \<open>k\<close>-th store call of the request throws for a reason of the store's own
  (network, permissions, a missing index, a value the server refuses), how the store
  adds numbers beyond the safe integers, and what the Identity Service answers. A
  store call that throws leaves the store as it was.
\<close>

record user_record =
  ur_uid :: string
  ur_email :: js
  ur_displayName :: js

record env =
  clock :: "nat \<Rightarrow> nat"
  store_fault :: "nat \<Rightarrow> string option"
  store_add :: "rat \<Rightarrow> rat \<Rightarrow> rat"
  auth_createUser :: "js \<Rightarrow> js \<Rightarrow> js \<Rightarrow> string + user_record"
  auth_createCustomToken :: "string \<Rightarrow> string + string"

text \<open>The calls a handler makes to the two services, in order.\<close>

datatype call =
    AuthCreateUser js js js
  | AuthCreateCustomToken string
  | DocGet cname path
  | DocSet cname path fields
  | DocUpdate cname path "(string \<times> fieldop) list"
  | Query cname string js string

record response =
  status :: nat
  json :: fields

record outcome =
  response :: response
  store_after :: store
  calls :: "call list"

text \<open>
  The body of a \<^verbatim>\<open>try\<close> block: a computation on the store and the call log that
  returns a value or throws an error message. \<open>await\<close> sequences two steps; a throw
  skips the rest, and what was written before it stays written.
\<close>

type_synonym 'a io = "store \<times> call list \<Rightarrow> (string + 'a) \<times> store \<times> call list"

definition ret :: "'a \<Rightarrow> 'a io" where
  "ret x = (\<lambda>s. (Inr x, s))"

definition throw :: "string \<Rightarrow> 'a io" where
  "throw e = (\<lambda>s. (Inl e, s))"

definition await :: "'a io \<Rightarrow> ('a \<Rightarrow> 'b io) \<Rightarrow> 'b io" where
  "await m f = (\<lambda>s. case m s of (Inl e, s') \<Rightarrow> (Inl e, s') | (Inr x, s') \<Rightarrow> f x s')"

definition log_call :: "call \<Rightarrow> unit io" where
  "log_call c = (\<lambda>s. (Inr (), fst s, snd s @ [c]))"

definition try_catch :: "response io \<Rightarrow> (string \<Rightarrow> response) \<Rightarrow> store \<Rightarrow> outcome" where
  "try_catch m h st =
     (case m (st, []) of
        (Inl e, s') \<Rightarrow> \<lparr>response = h e, store_after = fst s', calls = snd s'\<rparr>
      | (Inr r, s') \<Rightarrow> \<lparr>response = r, store_after = fst s', calls = snd s'\<rparr>)"

definition docRef :: "js \<Rightarrow> path io" where
  "docRef v =
     (case doc_path v of
        None \<Rightarrow> throw ''Value for argument documentPath is not a valid resource path''
      | Some p \<Rightarrow> ret p)"

definition docGet :: "env \<Rightarrow> nat \<Rightarrow> cname \<Rightarrow> path \<Rightarrow> fields option io" where
  "docGet e k c p =
     await (log_call (DocGet c p)) (\<lambda>_.
       case store_fault e k of
         Some msg \<Rightarrow> throw msg
       | None \<Rightarrow> (\<lambda>s. (Inr (map_of (coll c (fst s)) p), s)))"

definition docSet :: "env \<Rightarrow> nat \<Rightarrow> cname \<Rightarrow> path \<Rightarrow> fields \<Rightarrow> unit io" where
  "docSet e k c p d =
     await (log_call (DocSet c p d)) (\<lambda>_ s.
       case doc_set (coll c (fst s)) p d of
         Inl msg \<Rightarrow> (Inl msg, s)
       | Inr docs \<Rightarrow>
           (case store_fault e k of
              Some msg \<Rightarrow> (Inl msg, s)
            | None \<Rightarrow> (Inr (), put_coll c docs (fst s), snd s)))"

definition docUpdate ::
  "env \<Rightarrow> nat \<Rightarrow> cname \<Rightarrow> path \<Rightarrow> (string \<times> fieldop) list \<Rightarrow> unit io" where
  "docUpdate e k c p ups =
     await (log_call (DocUpdate c p ups)) (\<lambda>_ s.
       case store_fault e k of
         Some msg \<Rightarrow> (Inl msg, s)
       | None \<Rightarrow>
           (case doc_update (store_add e) (coll c (fst s)) p ups of
              Inl msg \<Rightarrow> (Inl msg, s)
            | Inr docs \<Rightarrow> (Inr (), put_coll c docs (fst s), snd s)))"

definition runQuery ::
  "env \<Rightarrow> nat \<Rightarrow> (js \<Rightarrow> js \<Rightarrow> bool) \<Rightarrow> cname \<Rightarrow> string \<Rightarrow> js \<Rightarrow> string \<Rightarrow> fields list io" where
  "runQuery e k vle c f1 v f2 =
     await (log_call (Query c f1 v f2)) (\<lambda>_.
       case store_fault e k of
         Some msg \<Rightarrow> throw msg
       | None \<Rightarrow> (\<lambda>s. (Inr (query_desc vle (coll c (fst s)) f1 v f2), s)))"

definition createUser :: "env \<Rightarrow> js \<Rightarrow> js \<Rightarrow> js \<Rightarrow> user_record io" where
  "createUser e email password name =
     await (log_call (AuthCreateUser email password name)) (\<lambda>_.
       case auth_createUser e email password name of
         Inl msg \<Rightarrow> throw msg
       | Inr ur \<Rightarrow> ret ur)"

definition createCustomToken :: "env \<Rightarrow> string \<Rightarrow> string io" where
  "createCustomToken e uid =
     await (log_call (AuthCreateCustomToken uid)) (\<lambda>_.
       case auth_createCustomToken e uid of
         Inl msg \<Rightarrow> throw msg
       | Inr tok \<Rightarrow> ret tok)"

definition failure :: "nat \<Rightarrow> string \<Rightarrow> response" where
  "failure code msg = \<lparr>status = code, json = [(''success'', JBool False), (''error'', JStr msg)]\<rparr>"

section \<open>The handlers\<close>

subsection \<open>\<^verbatim>\<open>POST /api/register\<close>\<close>

definition register_mock :: "env \<Rightarrow> js \<Rightarrow> js \<Rightarrow> response" where
  "register_mock e email name =
     \<lparr>status = 200,
      json = [(''success'', JBool True),
              (''user'', JObj [(''uid'', JStr (''user_'' @ show_nat (clock e 0))),
                               (''email'', email),
                               (''name'', name),
                               (''createdAt'', JStr (toISOString (clock e 1)))]),
              (''token'', JStr (''mock_token_'' @ show_nat (clock e 2))),
              (''message'', JStr ''Registration successful (Firebase disabled - mock mode)!'')]\<rparr>"

definition register_userData :: "env \<Rightarrow> string \<Rightarrow> js \<Rightarrow> js \<Rightarrow> fields" where
  "register_userData e uid email name =
     [(''uid'', JStr uid),
      (''email'', email),
      (''name'', name),
      (''createdAt'', JStr (toISOString (clock e 0))),
      (''lastLogin'', JStr (toISOString (clock e 1))),
      (''role'', JStr ''user''),
      (''totalProjects'', JNum 0),
      (''settings'', JObj [(''theme'', JStr ''light''), (''notifications'', JBool True)]),
      (''projects'', JArr [])]"

definition register :: "bool \<Rightarrow> env \<Rightarrow> store \<Rightarrow> fields \<Rightarrow> outcome" where
  "register firebaseInitialized e st body =
     try_catch
       (if \<not> truthy (get_prop body ''email'') \<or> \<not> truthy (get_prop body ''password'')
           \<or> \<not> truthy (get_prop body ''name'')
        then ret (failure 400 ''Missing required fields: email, password, name'')
        else if \<not> firebaseInitialized
        then ret (register_mock e (get_prop body ''email'') (get_prop body ''name''))
        else
          await (createUser e (get_prop body ''email'') (get_prop body ''password'')
                   (get_prop body ''name'')) (\<lambda>userRecord.
          await (docRef (JStr (ur_uid userRecord))) (\<lambda>p.
          await (docSet e 0 Users p
                   (register_userData e (ur_uid userRecord) (get_prop body ''email'')
                      (get_prop body ''name''))) (\<lambda>_.
          await (createCustomToken e (ur_uid userRecord)) (\<lambda>customToken.
          ret \<lparr>status = 200,
               json = [(''success'', JBool True),
                       (''user'', JObj [(''uid'', JStr (ur_uid userRecord)),
                                        (''email'', ur_email userRecord),
                                        (''name'', ur_displayName userRecord),
                                        (''createdAt'', JStr (toISOString (clock e 0)))]),
                       (''token'', JStr customToken),
                       (''message'', JStr ''Registration successful!'')]\<rparr>)))))
       (\<lambda>msg. failure 400 (if msg = [] then ''Registration failed'' else msg))
       st"

subsection \<open>\<^verbatim>\<open>POST /api/login\<close>\<close>

text \<open>\<^verbatim>\<open>email.split('@')[0]\<close>: the part before the first \<^verbatim>\<open>@\<close> of a string; on any other
  value there is no \<^verbatim>\<open>split\<close> to call and the expression throws a TypeError.\<close>

definition email_local_part :: "js \<Rightarrow> js io" where
  "email_local_part email =
     (case email of
        JStr s \<Rightarrow> ret (JStr (takeWhile (\<lambda>ch. ch \<noteq> CHR ''@'') s))
      | _ \<Rightarrow> throw ''email.split is not a function'')"

definition login_mockUser :: "env \<Rightarrow> js \<Rightarrow> js \<Rightarrow> fields" where
  "login_mockUser e email name =
     [(''uid'', JStr (''user_'' @ show_nat (clock e 0))),
      (''email'', email),
      (''name'', name),
      (''createdAt'', JStr (toISOString (clock e 1)))]"

definition login :: "bool \<Rightarrow> env \<Rightarrow> store \<Rightarrow> fields \<Rightarrow> outcome" where
  "login firebaseInitialized e st body =
     try_catch
       (if \<not> truthy (get_prop body ''email'') \<or> \<not> truthy (get_prop body ''password'')
        then ret (failure 400 ''Missing email or password'')
        else if \<not> firebaseInitialized
        then
          await (email_local_part (get_prop body ''email'')) (\<lambda>name.
          ret \<lparr>status = 200,
               json = [(''success'', JBool True),
                       (''user'', JObj (login_mockUser e (get_prop body ''email'') name)),
                       (''token'', JStr (''mock_token_'' @ show_nat (clock e 2))),
                       (''message'', JStr ''Login successful (Firebase disabled - mock mode)!'')]\<rparr>)
        else
          await (email_local_part (get_prop body ''email'')) (\<lambda>name.
          await (createCustomToken e (''user_'' @ show_nat (clock e 0))) (\<lambda>customToken.
          ret \<lparr>status = 200,
               json = [(''success'', JBool True),
                       (''user'', JObj (login_mockUser e (get_prop body ''email'') name)),
                       (''token'', JStr customToken),
                       (''message'', JStr ''Login successful!'')]\<rparr>)))
       (\<lambda>_. failure 401 ''Invalid credentials'')
       st"

subsection \<open>\<^verbatim>\<open>GET /api/user/:userId\<close>\<close>

definition safeUserData :: "fields \<Rightarrow> fields" where
  "safeUserData userData =
     [(''uid'', get_prop userData ''uid''),
      (''email'', get_prop userData ''email''),
      (''name'', get_prop userData ''name''),
      (''createdAt'', get_prop userData ''createdAt''),
      (''lastLogin'', get_prop userData ''lastLogin''),
      (''role'', get_prop userData ''role''),
      (''totalProjects'', get_prop userData ''totalProjects''),
      (''settings'', get_prop userData ''settings'')]"

definition get_user :: "env \<Rightarrow> store \<Rightarrow> string \<Rightarrow> outcome" where
  "get_user e st userId =
     try_catch
       (await (docRef (JStr userId)) (\<lambda>p.
        await (docGet e 0 Users p) (\<lambda>userDoc.
        case userDoc of
          None \<Rightarrow> ret (failure 404 ''User not found'')
        | Some userData \<Rightarrow>
            ret \<lparr>status = 200,
                 json = [(''success'', JBool True),
                         (''user'', JObj (safeUserData userData))]\<rparr>)))
       (\<lambda>_. failure 500 ''Server error'')
       st"

subsection \<open>\<^verbatim>\<open>POST /api/projects\<close>\<close>

definition projectId_of :: "env \<Rightarrow> string" where
  "projectId_of e = ''project_'' @ show_nat (clock e 0)"

definition projectData :: "env \<Rightarrow> fields \<Rightarrow> fields" where
  "projectData e body =
     [(''id'', JStr (projectId_of e)),
      (''userId'', get_prop body ''userId''),
      (''name'', get_prop body ''name''),
      (''type'', get_prop body ''type''),
      (''description'', js_or (get_prop body ''description'') (JStr [])),
      (''createdAt'', JStr (toISOString (clock e 1))),
      (''updatedAt'', JStr (toISOString (clock e 2))),
      (''status'', JStr ''active''),
      (''collaborators'', JArr []),
      (''tasks'', JArr [])]"

definition create_project :: "env \<Rightarrow> store \<Rightarrow> fields \<Rightarrow> outcome" where
  "create_project e st body =
     try_catch
       (await (docRef (get_prop body ''userId'')) (\<lambda>p.
        await (docGet e 0 Users p) (\<lambda>userDoc.
        case userDoc of
          None \<Rightarrow> ret (failure 404 ''User not found'')
        | Some _ \<Rightarrow>
            await (docRef (JStr (projectId_of e))) (\<lambda>q.
            await (docSet e 1 Projects q (projectData e body)) (\<lambda>_.
            await (docUpdate e 2 Users p
                     [(''totalProjects'', Increment 1),
                      (''projects'', ArrayUnion [JStr (projectId_of e)])]) (\<lambda>_.
            ret \<lparr>status = 200,
                 json = [(''success'', JBool True),
                         (''project'', JObj (projectData e body)),
                         (''message'', JStr ''Project created successfully!'')]\<rparr>))))))
       (\<lambda>_. failure 500 ''Failed to create project'')
       st"

subsection \<open>\<^verbatim>\<open>GET /api/user/:userId/projects\<close>\<close>

definition list_projects :: "(js \<Rightarrow> js \<Rightarrow> bool) \<Rightarrow> env \<Rightarrow> store \<Rightarrow> string \<Rightarrow> outcome" where
  "list_projects vle e st userId =
     try_catch
       (await (runQuery e 0 vle Projects ''userId'' (JStr userId) ''createdAt'') (\<lambda>docs.
        ret \<lparr>status = 200,
             json = [(''success'', JBool True),
                     (''projects'', JArr (map JObj docs)),
                     (''count'', JNum (of_nat (length docs)))]\<rparr>))
       (\<lambda>_. failure 500 ''Failed to fetch projects'')
       st"

subsection \<open>\<^verbatim>\<open>PUT /api/user/:userId\<close>\<close>

text \<open>The field map that reaches \<^verbatim>\<open>update\<close>: the body after the three \<^verbatim>\<open>delete\<close>s and
  the assignment of \<^verbatim>\<open>updatedAt\<close>.\<close>

definition stripped_updates :: "env \<Rightarrow> fields \<Rightarrow> fields" where
  "stripped_updates e body =
     AList.update ''updatedAt'' (JStr (toISOString (clock e 0)))
       (AList.delete ''createdAt'' (AList.delete ''email'' (AList.delete ''uid'' body)))"

definition update_user :: "env \<Rightarrow> store \<Rightarrow> string \<Rightarrow> fields \<Rightarrow> outcome" where
  "update_user e st userId body =
     try_catch
       (await (docRef (JStr userId)) (\<lambda>p.
        await (docUpdate e 0 Users p
                 (map (\<lambda>kv. (fst kv, SetTo (snd kv))) (stripped_updates e body))) (\<lambda>_.
        await (docGet e 1 Users p) (\<lambda>userDoc.
        ret \<lparr>status = 200,
             json = [(''success'', JBool True),
                     (''user'', (case userDoc of None \<Rightarrow> JUndefined | Some d \<Rightarrow> JObj d)),
                     (''message'', JStr ''Profile updated successfully'')]\<rparr>))))
       (\<lambda>_. failure 500 ''Failed to update profile'')
       st"

section \<open>Loading the module\<close>

text \<open>
  Lines 32 to 51 run once, when the module is loaded. Inside a \<^verbatim>\<open>try\<close>: when
  \<^verbatim>\<open>FIREBASE_CONFIG\<close> is set to a non-empty string, it is parsed and given to
  \<^verbatim>\<open>admin.initializeApp\<close>, and only after that has returned is \<^verbatim>\<open>firebaseInitialized\<close>
  set; any throw on the way is caught and logged. So the flag is true exactly when the
  default app exists. \<open>app_ok\<close> says for which configurations parsing and
  initialisation go through.
\<close>

record init_state =
  firebaseInitialized :: bool
  defaultApp :: bool

definition initialize :: "(string \<Rightarrow> bool) \<Rightarrow> string option \<Rightarrow> init_state" where
  "initialize app_ok cfg =
     (case cfg of
        Some c \<Rightarrow>
          (if c \<noteq> [] \<and> app_ok c
           then \<lparr>firebaseInitialized = True, defaultApp = True\<rparr>
           else \<lparr>firebaseInitialized = False, defaultApp = False\<rparr>)
      | None \<Rightarrow> \<lparr>firebaseInitialized = False, defaultApp = False\<rparr>)"

text \<open>
  Line 51, \<^verbatim>\<open>const db = admin.firestore()\<close>, stands outside the \<^verbatim>\<open>try\<close>: without a default
  app it throws, the module does not load, and no handler is ever installed. A loaded
  module is the value of its flag.
\<close>

definition load_module :: "(string \<Rightarrow> bool) \<Rightarrow> string option \<Rightarrow> string + bool" where
  "load_module app_ok cfg =
     (if defaultApp (initialize app_ok cfg)
      then Inr (firebaseInitialized (initialize app_ok cfg))
      else Inl ''The default Firebase app does not exist'')"

text \<open>A request to a process started with the configuration \<open>cfg\<close>: answered by the
  handler of the loaded module, or not at all (\<open>None\<close>).\<close>

definition serve_register ::
  "(string \<Rightarrow> bool) \<Rightarrow> string option \<Rightarrow> env \<Rightarrow> store \<Rightarrow> fields \<Rightarrow> outcome option" where
  "serve_register app_ok cfg e st body =
     (case load_module app_ok cfg of
        Inl _ \<Rightarrow> None
      | Inr flag \<Rightarrow> Some (register flag e st body))"

definition serve_login ::
  "(string \<Rightarrow> bool) \<Rightarrow> string option \<Rightarrow> env \<Rightarrow> store \<Rightarrow> fields \<Rightarrow> outcome option" where
  "serve_login app_ok cfg e st body =
     (case load_module app_ok cfg of
        Inl _ \<Rightarrow> None
      | Inr flag \<Rightarrow> Some (login flag e st body))"

section \<open>The counter invariant\<close>

text \<open>A user record's \<^verbatim>\<open>totalProjects\<close> is the number of entries of its \<^verbatim>\<open>projects\<close> list.\<close>

definition counter_matches :: "fields \<Rightarrow> bool" where
  "counter_matches u =
     (case get_prop u ''projects'' of
        JArr ids \<Rightarrow> get_prop u ''totalProjects'' = JNum (of_nat (length ids))
      | _ \<Rightarrow> False)"

text \<open>Project records as \<^verbatim>\<open>POST /api/projects\<close> writes them: directly in the collection and
  with a creation timestamp.\<close>

definition projects_wf :: "store \<Rightarrow> bool" where
  "projects_wf st =
     (\<forall>kd \<in> set (projects st). length (fst kd) = 1 \<and> map_of (snd kd) ''createdAt'' \<noteq> None)"

section \<open>Sample inputs\<close>

text \<open>An environment in which every clock reading of the request is \<open>t\<close>, no store call
  throws, and the Identity Service creates the user \<^verbatim>\<open>u1\<close> and signs a token for any
  id. Its \<open>store_add\<close> adds exactly; it is never consulted below, where every counter
  is a small integer.\<close>

definition env_at :: "nat \<Rightarrow> env" where
  "env_at t =
     \<lparr>clock = (\<lambda>_. t),
      store_fault = (\<lambda>_. None),
      store_add = (\<lambda>a b. a + b),
      auth_createUser = (\<lambda>email password name.
        Inr \<lparr>ur_uid = ''u1'', ur_email = email, ur_displayName = name\<rparr>),
      auth_createCustomToken = (\<lambda>uid. Inr (''token_for_'' @ uid))\<rparr>"

definition empty_store :: store where
  "empty_store = \<lparr>users = [], projects = []\<rparr>"

definition register_body :: fields where
  "register_body =
     [(''email'', JStr ''ann@example.org''), (''password'', JStr ''secret1''), (''name'', JStr ''Ann'')]"

definition project_body :: "string \<Rightarrow> fields" where
  "project_body nm = [(''userId'', JStr ''u1''), (''name'', JStr nm), (''type'', JStr ''web'')]"

text \<open>An order on values that compares strings by their bytes and puts every other
  value below the strings.\<close>

definition sample_vle :: "js \<Rightarrow> js \<Rightarrow> bool" where
  "sample_vle a b =
     (case a of
        JStr s \<Rightarrow> (case b of JStr t \<Rightarrow> s \<le> t | _ \<Rightarrow> False)
      | _ \<Rightarrow> True)"

text \<open>The same environment with an Identity Service that refuses to sign tokens.\<close>

definition env_no_token :: "nat \<Rightarrow> env" where
  "env_no_token t = (env_at t)\<lparr>auth_createCustomToken := (\<lambda>_. Inl ''signing failed'')\<rparr>"

text \<open>The store after Ann has registered, after her first project, and after a second
  project created within the same millisecond as the first.\<close>

definition registered :: store where
  "registered = store_after (register True (env_at 1000) empty_store register_body)"

definition one_project :: store where
  "one_project = store_after (create_project (env_at 5000) registered (project_body ''Site''))"

definition two_projects :: store where
  "two_projects = store_after (create_project (env_at 5000) one_project (project_body ''Shop''))"

text \<open>The store after a second project created two seconds after the first.\<close>

definition later_project :: store where
  "later_project = store_after (create_project (env_at 7000) one_project (project_body ''Shop''))"

text \<open>A profile update that also tries to overwrite the protected fields.\<close>

definition update_body :: fields where
  "update_body =
     [(''uid'', JStr ''someone_else''),
      (''email'', JStr ''eve@example.org''),
      (''name'', JStr ''Anna''),
      (''settings.theme'', JStr ''dark'')]"

text \<open>A profile update whose keys are field paths into the protected fields.\<close>

definition dotted_body :: fields where
  "dotted_body = [(''uid.y'', JStr ''mallory''), (''email.x'', JStr ''eve@example.org'')]"

text \<open>A value wrapped in \<open>n\<close> maps, and a map with an empty field name.\<close>

fun nest :: "nat \<Rightarrow> js \<Rightarrow> js" where
  "nest 0 v = v"
| "nest (Suc n) v = JObj [(''a'', nest n v)]"


section \<open>Evaluation rules\<close>

lemma show_nat_small: "n < 10 \<Longrightarrow> show_nat n = [digit_char n]"
  by (simp add: show_nat.simps)

lemma show_nat_large: "\<not> n < 10 \<Longrightarrow> show_nat n = show_nat (n div 10) @ [digit_char n]"
  by (subst show_nat.simps) simp

lemma replicate_numeral_Cons: "replicate (numeral k) x = x # replicate (pred_numeral k) x"
  by (simp add: numeral_eq_Suc)

lemmas date_eval = toISOString_def civil_from_days_def civil_of_shifted_def doe_of_def
  yoe_of_def doy_of_def mp_of_def day_of_def month_of_def year_of_def pad_def
  show_nat_small show_nat_large digit_char_def replicate_numeral_Cons

lemma toISOString_epoch: "toISOString 0 = ''1970-01-01T00:00:00.000Z''"
  by (simp add: date_eval)

lemma toISOString_leap_day: "toISOString 1709251199999 = ''2024-02-29T23:59:59.999Z''"
  by (simp add: date_eval)

lemma toISOString_2023: "toISOString 1700000000000 = ''2023-11-14T22:13:20.000Z''"
  by (simp add: date_eval)

lemma toISOString_year_10000: "toISOString 253402300800000 = ''+010000-01-01T00:00:00.000Z''"
  by (simp add: date_eval)

lemma env_at_no_fault: "store_fault (env_at t) k = None"
  by (simp add: env_at_def)

lemmas io_defs = ret_def throw_def await_def log_call_def try_catch_def docRef_def docGet_def
  docSet_def docUpdate_def runQuery_def createUser_def createCustomToken_def

section \<open>Registration and login\<close>

lemma register_falsy:
  assumes "\<not> truthy (get_prop body ''email'') \<or> \<not> truthy (get_prop body ''password'')
           \<or> \<not> truthy (get_prop body ''name'')"
  shows "register fi e st body =
           \<lparr>response = failure 400 ''Missing required fields: email, password, name'',
            store_after = st, calls = []\<rparr>"
  using assms by (auto simp: register_def io_defs)

text \<open>
  Claim C5. A register request in which email, password or name is absent is answered
  with status 400 and \<^verbatim>\<open>success: false\<close>; the handler calls neither the Identity Service
  nor the Document Store (the call log is empty) and the store is as before.
\<close>

theorem register_missing_field:
  assumes "map_of body ''email'' = None \<or> map_of body ''password'' = None
           \<or> map_of body ''name'' = None"
  shows "status (response (register fi e st body)) = 400
         \<and> get_prop (json (response (register fi e st body))) ''success'' = JBool False
         \<and> store_after (register fi e st body) = st
         \<and> calls (register fi e st body) = []"
proof -
  from assms have "\<not> truthy (get_prop body ''email'') \<or> \<not> truthy (get_prop body ''password'')
           \<or> \<not> truthy (get_prop body ''name'')"
    by (auto simp: get_prop_def)
  from register_falsy [OF this, of fi e st] show ?thesis
    by (simp add: failure_def get_prop_def)
qed

theorem register_missing_field_witness:
  "map_of [(''email'', JStr ''ann@example.org''), (''password'', JStr ''secret1'')] ''name'' = None
   \<and> status (response (register True (env_at 1000) empty_store
        [(''email'', JStr ''ann@example.org''), (''password'', JStr ''secret1'')])) = 400
   \<and> store_after (register True (env_at 1000) empty_store
        [(''email'', JStr ''ann@example.org''), (''password'', JStr ''secret1'')]) = empty_store
   \<and> calls (register True (env_at 1000) empty_store
        [(''email'', JStr ''ann@example.org''), (''password'', JStr ''secret1'')]) = []"
  using register_missing_field
    [of "[(''email'', JStr ''ann@example.org''), (''password'', JStr ''secret1'')]"
        True "env_at 1000" empty_store]
  by simp

subsection \<open>The mock branches\<close>

text \<open>
  What the branches under \<^verbatim>\<open>!firebaseInitialized\<close> answer, were a handler ever called with
  the flag false: a register request whose email, password and name are all truthy,
  and a login request whose email is a non-empty string and whose password is truthy,
  get status 200, a user whose id is \<^verbatim>\<open>user_\<close> followed by the clock reading, and the
  token \<^verbatim>\<open>mock_token_\<close> followed by a clock reading. A login request whose email is
  truthy but no string gets 401, because \<^verbatim>\<open>email.split\<close> throws. In all three cases no
  service is called and the store is as before.
\<close>

lemma mock_branch:
  "(truthy (get_prop body ''email'') \<and> truthy (get_prop body ''password'')
      \<and> truthy (get_prop body ''name'') \<longrightarrow>
      register False e st body =
        \<lparr>response =
           \<lparr>status = 200,
            json = [(''success'', JBool True),
                    (''user'', JObj [(''uid'', JStr (''user_'' @ show_nat (clock e 0))),
                                     (''email'', get_prop body ''email''),
                                     (''name'', get_prop body ''name''),
                                     (''createdAt'', JStr (toISOString (clock e 1)))]),
                    (''token'', JStr (''mock_token_'' @ show_nat (clock e 2))),
                    (''message'', JStr ''Registration successful (Firebase disabled - mock mode)!'')]\<rparr>,
         store_after = st, calls = []\<rparr>)
   \<and> (get_prop body ''email'' = JStr s \<and> s \<noteq> [] \<and> truthy (get_prop body ''password'') \<longrightarrow>
      login False e st body =
        \<lparr>response =
           \<lparr>status = 200,
            json = [(''success'', JBool True),
                    (''user'', JObj [(''uid'', JStr (''user_'' @ show_nat (clock e 0))),
                                     (''email'', JStr s),
                                     (''name'', JStr (takeWhile (\<lambda>ch. ch \<noteq> CHR ''@'') s)),
                                     (''createdAt'', JStr (toISOString (clock e 1)))]),
                    (''token'', JStr (''mock_token_'' @ show_nat (clock e 2))),
                    (''message'', JStr ''Login successful (Firebase disabled - mock mode)!'')]\<rparr>,
         store_after = st, calls = []\<rparr>)
   \<and> (truthy (get_prop body ''email'') \<and> (\<forall>s. get_prop body ''email'' \<noteq> JStr s)
        \<and> truthy (get_prop body ''password'') \<longrightarrow>
      login False e st body =
        \<lparr>response = failure 401 ''Invalid credentials'', store_after = st, calls = []\<rparr>)"
  by (cases "get_prop body ''email''")
     (simp_all add: register_def login_def register_mock_def login_mockUser_def
        email_local_part_def io_defs)

lemma mock_branch_example:
  "status (response (register False (env_at 1000) empty_store register_body)) = 200
   \<and> get_prop (json (response (register False (env_at 1000) empty_store register_body))) ''token''
       = JStr ''mock_token_1000''
   \<and> calls (register False (env_at 1000) empty_store register_body) = []
   \<and> status (response (login False (env_at 1000) empty_store register_body)) = 200
   \<and> get_prop (json (response (login False (env_at 1000) empty_store register_body))) ''user''
       = JObj [(''uid'', JStr ''user_1000''), (''email'', JStr ''ann@example.org''),
               (''name'', JStr ''ann''), (''createdAt'', JStr ''1970-01-01T00:00:01.000Z'')]
   \<and> calls (login False (env_at 1000) empty_store register_body) = []"
proof -
  have h: "truthy (get_prop register_body ''email'') \<and> truthy (get_prop register_body ''password'')
   \<and> truthy (get_prop register_body ''name'')"
    and h2: "get_prop register_body ''email'' = JStr ''ann@example.org''"
    by (simp_all add: register_body_def get_prop_def)
  from mock_branch [where body = register_body and e = "env_at 1000" and st = empty_store
      and s = "''ann@example.org''"] h h2
  show ?thesis by (simp add: get_prop_def env_at_def date_eval)
qed

text \<open>
  Claim C7. With the store available, a login request whose email and password pass the
  handler's presence test (both truthy) is answered as follows. When the email is a
  string and the Identity Service signs, the answer is 200 with a token signed for the
  id \<^verbatim>\<open>user_\<close> followed by the clock reading; signing is the only call made, so the
  password is never checked, and the outcome is the same for every truthy password.
  When anything throws (the email has no \<^verbatim>\<open>split\<close>, or signing fails) the answer is 401
  \<^verbatim>\<open>Invalid credentials\<close>.
\<close>

theorem login_store_available:
  assumes "truthy (get_prop body ''email'')" and "truthy (get_prop body ''password'')"
  shows "(\<forall>s tok. get_prop body ''email'' = JStr s
            \<and> auth_createCustomToken e (''user_'' @ show_nat (clock e 0)) = Inr tok \<longrightarrow>
          login True e st body =
            \<lparr>response =
               \<lparr>status = 200,
                json = [(''success'', JBool True),
                        (''user'', JObj [(''uid'', JStr (''user_'' @ show_nat (clock e 0))),
                                         (''email'', JStr s),
                                         (''name'', JStr (takeWhile (\<lambda>ch. ch \<noteq> CHR ''@'') s)),
                                         (''createdAt'', JStr (toISOString (clock e 1)))]),
                        (''token'', JStr tok),
                        (''message'', JStr ''Login successful!'')]\<rparr>,
             store_after = st,
             calls = [AuthCreateCustomToken (''user_'' @ show_nat (clock e 0))]\<rparr>)
       \<and> ((\<forall>s. get_prop body ''email'' \<noteq> JStr s)
            \<or> (\<exists>msg. auth_createCustomToken e (''user_'' @ show_nat (clock e 0)) = Inl msg) \<longrightarrow>
          response (login True e st body) = failure 401 ''Invalid credentials''
          \<and> store_after (login True e st body) = st)
       \<and> (\<forall>pw. truthy pw \<longrightarrow>
            login True e st (AList.update ''password'' pw body) = login True e st body)"
proof -
  have upd: "\<And>pw k. k \<noteq> ''password'' \<Longrightarrow>
      get_prop (AList.update ''password'' pw body) k = get_prop body k"
    by (simp add: get_prop_def update_conv')
  have updp: "\<And>pw. get_prop (AList.update ''password'' pw body) ''password'' = pw"
    by (simp add: get_prop_def update_conv')
  show ?thesis
    using assms
    by (cases "get_prop body ''email''")
       (auto simp: login_def login_mockUser_def email_local_part_def io_defs failure_def upd updp
             split: sum.splits)
qed

theorem login_store_available_witness:
  "truthy (get_prop register_body ''email'') \<and> truthy (get_prop register_body ''password'')
   \<and> get_prop register_body ''email'' = JStr ''ann@example.org''
   \<and> auth_createCustomToken (env_at 1000) ''user_1000'' = Inr ''token_for_user_1000''
   \<and> get_prop (json (response (login True (env_at 1000) empty_store register_body))) ''token''
       = JStr ''token_for_user_1000''
   \<and> calls (login True (env_at 1000) empty_store register_body)
       = [AuthCreateCustomToken ''user_1000'']
   \<and> auth_createCustomToken (env_no_token 1000) ''user_1000'' = Inl ''signing failed''
   \<and> response (login True (env_no_token 1000) empty_store register_body)
       = failure 401 ''Invalid credentials''
   \<and> truthy (JStr ''other'')
   \<and> login True (env_at 1000) empty_store (AList.update ''password'' (JStr ''other'') register_body)
       = login True (env_at 1000) empty_store register_body"
proof -
  have h1: "truthy (get_prop register_body ''email'')"
    and h2: "truthy (get_prop register_body ''password'')"
    and h3: "get_prop register_body ''email'' = JStr ''ann@example.org''"
    by (simp_all add: register_body_def get_prop_def)
  have c: "clock (env_at 1000) 0 = 1000" "clock (env_no_token 1000) 0 = 1000"
    by (simp_all add: env_at_def env_no_token_def)
  have n: "show_nat 1000 = ''1000''"
    by (simp add: date_eval)
  have t1: "auth_createCustomToken (env_at 1000) ''user_1000'' = Inr ''token_for_user_1000''"
    and t2: "auth_createCustomToken (env_no_token 1000) ''user_1000'' = Inl ''signing failed''"
    by (simp_all add: env_at_def env_no_token_def)
  from login_store_available [OF h1 h2, of "env_at 1000" empty_store]
       login_store_available [OF h1 h2, of "env_no_token 1000" empty_store]
       h1 h2 h3 t1 t2
  show ?thesis by (simp add: c n get_prop_def)
qed

section \<open>Mock mode and the loading of the module\<close>

text \<open>A module that has loaded has its flag set: whatever the configuration, a request
  that a handler answers is answered with \<^verbatim>\<open>firebaseInitialized\<close> true, never by a
  mock branch.\<close>

lemma loaded_flag_true: "load_module app_ok cfg = Inr flag \<Longrightarrow> flag"
  by (cases cfg) (auto simp: load_module_def initialize_def split: if_splits)

lemma served_with_flag_true:
  "serve_register app_ok cfg e st body = Some out \<Longrightarrow> out = register True e st body"
  "serve_login app_ok cfg e st body = Some out \<Longrightarrow> out = login True e st body"
  by (auto simp: serve_register_def serve_login_def split: sum.splits dest: loaded_flag_true)

lemma rejected_config_not_loaded:
  "\<not> app_ok c \<Longrightarrow> load_module app_ok (Some c) = Inl ''The default Firebase app does not exist''"
  by (simp add: load_module_def initialize_def)

text \<open>
  Claim C6 says that a register or login request with all required fields present,
  received while the store-availability flag is false, is answered with success, a
  synthetic user id and a placeholder token. The code breaks this before any request
  arrives. For a process started without \<^verbatim>\<open>FIREBASE_CONFIG\<close> the flag is false and no
  default app exists, so \<^verbatim>\<open>admin.firestore()\<close> at line 51 throws while the module loads:
  the module does not load, and neither a register nor a login request with all
  fields present is answered by its handler.
\<close>

theorem mock_mode_never_served:
  "firebaseInitialized (initialize app_ok None) = False
   \<and> load_module app_ok None = Inl ''The default Firebase app does not exist''
   \<and> truthy (get_prop register_body ''email'')
   \<and> truthy (get_prop register_body ''password'')
   \<and> truthy (get_prop register_body ''name'')
   \<and> serve_register app_ok None (env_at 1000) empty_store register_body = None
   \<and> serve_login app_ok None (env_at 1000) empty_store register_body = None"
  by (simp add: initialize_def load_module_def serve_register_def serve_login_def
        register_body_def get_prop_def)

section \<open>Document ids\<close>

lemma digit_char_in: "digit_char d \<in> set ''0123456789''"
proof -
  have "d mod 10 < length ''0123456789''" by simp
  then show ?thesis unfolding digit_char_def by (rule nth_mem)
qed

lemma show_nat_digits: "set (show_nat n) \<subseteq> set ''0123456789''"
proof (induction n rule: show_nat.induct)
  case (1 n)
  show ?case
  proof (cases "n < 10")
    case True
    then show ?thesis using digit_char_in [of n] by (simp add: show_nat_small)
  next
    case False
    then show ?thesis using 1 digit_char_in [of n] by (simp add: show_nat_large)
  qed
qed

lemma split_on_no_sep: "c \<notin> set s \<Longrightarrow> split_on c s = [s]"
  by (induction s) auto

lemma has_dslash_no_slash: "CHR ''/'' \<notin> set s \<Longrightarrow> \<not> has_dslash s"
  by (induction s rule: has_dslash.induct) auto

lemma doc_path_plain: "s \<noteq> [] \<Longrightarrow> CHR ''/'' \<notin> set s \<Longrightarrow> doc_path (JStr s) = Some [s]"
  by (simp add: doc_path_def split_on_no_sep has_dslash_no_slash)

lemma doc_path_projectId: "doc_path (JStr (projectId_of e)) = Some [projectId_of e]"
proof -
  have "CHR ''/'' \<notin> set (show_nat (clock e 0))"
    using show_nat_digits [of "clock e 0"] by auto
  then show ?thesis
    by (intro doc_path_plain) (auto simp: projectId_of_def)
qed

lemma doc_path_empty: "doc_path (JStr '''') = None" by (simp add: doc_path_def)

section \<open>Reading a user\<close>

lemma registered_eval:
  "registered =
     \<lparr>users = [([''u1''],
                 [(''uid'', JStr ''u1''),
                  (''email'', JStr ''ann@example.org''),
                  (''name'', JStr ''Ann''),
                  (''createdAt'', JStr (toISOString 1000)),
                  (''lastLogin'', JStr (toISOString 1000)),
                  (''role'', JStr ''user''),
                  (''totalProjects'', JNum 0),
                  (''settings'', JObj [(''theme'', JStr ''light''), (''notifications'', JBool True)]),
                  (''projects'', JArr [])])],
      projects = []\<rparr>"
  by (simp add: registered_def register_def register_body_def register_userData_def env_at_def
        empty_store_def io_defs get_prop_def doc_path_def doc_set_def coll_def put_coll_def
        max_depth_def)

lemma doc_path_u1: "doc_path (JStr ''u1'') = Some [''u1'']"
  by (simp add: doc_path_def)

text \<open>
  Claim C9. A get-user request on an existing user id (whose read does not throw) is
  answered 200 with a user object of exactly the eight keys uid, email, name,
  createdAt, lastLogin, role, totalProjects and settings, each carrying the stored
  value of that field; reading any other key of it, such as \<^verbatim>\<open>projects\<close>, gives
  \<^verbatim>\<open>undefined\<close>.
\<close>

theorem get_user_fields:
  assumes "doc_path (JStr userId) = Some p" and "map_of (users st) p = Some userData"
    and "store_fault e 0 = None"
  shows "response (get_user e st userId)
           = \<lparr>status = 200,
              json = [(''success'', JBool True), (''user'', JObj (safeUserData userData))]\<rparr>
         \<and> map fst (safeUserData userData)
             = [''uid'', ''email'', ''name'', ''createdAt'', ''lastLogin'', ''role'',
                ''totalProjects'', ''settings'']
         \<and> (\<forall>k. get_prop (safeUserData userData) k
               = (if k \<in> set [''uid'', ''email'', ''name'', ''createdAt'', ''lastLogin'', ''role'',
                                ''totalProjects'', ''settings'']
                  then get_prop userData k else JUndefined))
         \<and> store_after (get_user e st userId) = st"
  using assms
  by (simp add: get_user_def io_defs coll_def safeUserData_def get_prop_def)

theorem get_user_fields_witness:
  "doc_path (JStr ''u1'') = Some [''u1'']
   \<and> map_of (users registered) [''u1''] \<noteq> None
   \<and> store_fault (env_at 2000) 0 = None
   \<and> get_prop (json (response (get_user (env_at 2000) registered ''u1''))) ''user''
       = JObj [(''uid'', JStr ''u1''),
               (''email'', JStr ''ann@example.org''),
               (''name'', JStr ''Ann''),
               (''createdAt'', JStr (toISOString 1000)),
               (''lastLogin'', JStr (toISOString 1000)),
               (''role'', JStr ''user''),
               (''totalProjects'', JNum 0),
               (''settings'', JObj [(''theme'', JStr ''light''), (''notifications'', JBool True)])]"
proof -
  obtain u where u: "map_of (users registered) [''u1''] = Some u"
    by (simp add: registered_eval)
  have f: "store_fault (env_at 2000) 0 = None"
    by (simp add: env_at_def)
  from get_user_fields [OF doc_path_u1 u f] u f doc_path_u1
  show ?thesis by (auto simp: registered_eval safeUserData_def get_prop_def)
qed

section \<open>Creating a project\<close>

text \<open>
  Claim C8, as amended. When the request's userId names no existing user record, the
  store (and so the project collection) is left unchanged. The answer is 404
  \<^verbatim>\<open>User not found\<close> when the userId is a valid document id and the read succeeds; it
  is 500 \<^verbatim>\<open>Failed to create project\<close> when the userId is not a valid document id
  (absent, not a string, empty, ...) or the read throws.
\<close>

theorem create_project_unknown_user:
  assumes "\<forall>p. doc_path (get_prop body ''userId'') = Some p \<longrightarrow> map_of (users st) p = None"
  shows "store_after (create_project e st body) = st
         \<and> response (create_project e st body)
             = (if doc_path (get_prop body ''userId'') = None \<or> store_fault e 0 \<noteq> None
                then failure 500 ''Failed to create project''
                else failure 404 ''User not found'')"
  using assms
  by (auto simp: create_project_def io_defs coll_def split: option.splits)

theorem create_project_unknown_user_witness:
  "doc_path (get_prop (project_body ''Site'') ''userId'') = Some [''u1'']
   \<and> map_of (users empty_store) [''u1''] = None
   \<and> store_fault (env_at 5000) 0 = None
   \<and> store_after (create_project (env_at 5000) empty_store (project_body ''Site'')) = empty_store
   \<and> response (create_project (env_at 5000) empty_store (project_body ''Site''))
       = failure 404 ''User not found''"
proof -
  have h: "\<forall>p. doc_path (get_prop (project_body ''Site'') ''userId'') = Some p
        \<longrightarrow> map_of (users empty_store) p = None"
    by (simp add: empty_store_def)
  have d: "doc_path (get_prop (project_body ''Site'') ''userId'') = Some [''u1'']"
    by (simp add: project_body_def get_prop_def doc_path_def)
  from create_project_unknown_user [OF h, of "env_at 5000"] d
  show ?thesis by (simp add: env_at_no_fault empty_store_def)
qed

text \<open>
  The claim as written fails: the empty string names no user record, and the answer
  is 500, not 404, because \<^verbatim>\<open>doc('')\<close> throws before any read.
\<close>

theorem create_project_unknown_user_counterexample:
  "doc_path (get_prop [(''userId'', JStr ''''), (''name'', JStr ''Site''), (''type'', JStr ''web'')] ''userId'') = None
   \<and> users empty_store = []
   \<and> status (response (create_project (env_at 1000) empty_store
        [(''userId'', JStr ''''), (''name'', JStr ''Site''), (''type'', JStr ''web'')])) = 500"
  by (simp add: create_project_def io_defs get_prop_def doc_path_def empty_store_def failure_def)


subsection \<open>The successful path\<close>

lemma get_prop_update:
  "get_prop (AList.update k v d) k' = (if k' = k then v else get_prop d k')"
  by (simp add: get_prop_def update_conv')

lemma field_path_totalProjects: "field_path ''totalProjects'' = Some [''totalProjects'']"
  by (simp add: field_path_def)

lemma field_path_projects: "field_path ''projects'' = Some [''projects'']"
  by (simp add: field_path_def)

lemma counter_update_ok:
  assumes "map_of c p = Some u"
  shows "doc_update add c p [(''totalProjects'', Increment 1), (''projects'', ArrayUnion [JStr pid])]
         = Inr (AList.update p
                 (AList.update ''projects''
                    (apply_op add (ArrayUnion [JStr pid]) (get_prop u ''projects''))
                   (AList.update ''totalProjects''
                      (apply_op add (Increment 1) (get_prop u ''totalProjects'')) u))
                 c)"
  using assms
  by (simp add: doc_update_def field_path_totalProjects field_path_projects no_conflicts_def
        apply_updates_def get_prop_update max_depth_def)

lemma create_project_success:
  assumes "doc_path (get_prop body ''userId'') = Some p" and "map_of (users st) p = Some u"
    and "store_fault e 0 = None" and "store_fault e 1 = None" and "store_fault e 2 = None"
    and "storable_fields 1 (projectData e body)"
  shows "create_project e st body =
           \<lparr>response =
              \<lparr>status = 200,
               json = [(''success'', JBool True),
                       (''project'', JObj (projectData e body)),
                       (''message'', JStr ''Project created successfully!'')]\<rparr>,
            store_after =
              \<lparr>users = AList.update p
                 (AList.update ''projects''
                    (apply_op (store_add e) (ArrayUnion [JStr (projectId_of e)])
                       (get_prop u ''projects''))
                   (AList.update ''totalProjects''
                      (apply_op (store_add e) (Increment 1) (get_prop u ''totalProjects'')) u))
                 (users st),
               projects = AList.update [projectId_of e] (projectData e body) (projects st)\<rparr>,
            calls = [DocGet Users p,
                     DocSet Projects [projectId_of e] (projectData e body),
                     DocUpdate Users p [(''totalProjects'', Increment 1),
                                        (''projects'', ArrayUnion [JStr (projectId_of e)])]]\<rparr>"
  using assms counter_update_ok [of "users st" p u "store_add e" "projectId_of e"]
  by (simp add: create_project_def io_defs coll_def put_coll_def doc_set_def doc_path_projectId)

lemma create_project_rejected:
  assumes "doc_path (get_prop body ''userId'') = Some p" and "map_of (users st) p = Some u"
    and "store_fault e 0 = None"
    and "\<not> storable_fields 1 (projectData e body)"
  shows "create_project e st body =
           \<lparr>response = failure 500 ''Failed to create project'',
            store_after = st,
            calls = [DocGet Users p, DocSet Projects [projectId_of e] (projectData e body)]\<rparr>"
  using assms
  by (simp add: create_project_def io_defs coll_def put_coll_def doc_set_def doc_path_projectId)

lemma doc_path_is_string: "doc_path v = Some p \<Longrightarrow> \<exists>s. v = JStr s"
  by (cases v) (auto simp: doc_path_def)

text \<open>The project record can be written exactly when the three values taken from the
  body can: all its other fields are strings and empty lists under fixed names.\<close>

lemma storable_projectData:
  assumes "doc_path (get_prop body ''userId'') = Some p"
  shows "storable_fields 1 (projectData e body)
         \<longleftrightarrow> storable 1 (get_prop body ''name'') \<and> storable 1 (get_prop body ''type'')
             \<and> storable 1 (js_or (get_prop body ''description'') (JStr []))"
proof -
  from doc_path_is_string [OF assms] obtain s where s: "get_prop body ''userId'' = JStr s" ..
  show ?thesis
    by (simp add: projectData_def s max_depth_def)
qed


subsection \<open>Name, type and description\<close>

text \<open>The depth check: a number under \<open>n\<close> nested maps, visited at path length \<open>s\<close>, can
  be written exactly when \<open>s + n - 1 \<le> 20\<close>. As the value of a top-level field (\<open>s = 1\<close>),
  20 nested maps pass and 21 are refused.\<close>

lemma storable_nest: "storable s (nest n (JNum r)) \<longleftrightarrow> s + n - 1 \<le> max_depth"
  by (induction n arbitrary: s) (auto simp: max_depth_def)

lemma storable_nest_20: "storable 1 (nest 20 (JNum 1))"
  by (simp add: storable_nest max_depth_def)

lemma storable_nest_21: "\<not> storable 1 (nest 21 (JNum 1))"
  by (simp add: storable_nest max_depth_def)





subsection \<open>The counter and the list of project ids\<close>

text \<open>On a counter that is a safe integer, \<^verbatim>\<open>increment(1)\<close> adds exactly 1. On \<open>2^53\<close> it
  gives what the store's own arithmetic gives.\<close>

lemma safe_integer_of_int:
  assumes "\<bar>k\<bar> \<le> 9007199254740991"
  shows "safe_integer (of_int k)"
proof -
  from assms have "(of_int \<bar>k\<bar> :: rat) \<le> 9007199254740991"
    by (simp only: of_int_le_numeral_iff)
  then show ?thesis
    by (simp add: safe_integer_def)
qed

lemma increment_safe:
  assumes "\<bar>k\<bar> \<le> 9007199254740991"
  shows "apply_op add (Increment 1) (JNum (of_int k)) = JNum (of_int k + 1)"
proof -
  have one: "safe_integer 1"
    by (simp add: safe_integer_def)
  from assms have "\<bar>k + 1\<bar> \<le> 9007199254740992"
    by linarith
  then have "(of_int \<bar>k + 1\<bar> :: rat) \<le> 9007199254740992"
    by (simp only: of_int_le_numeral_iff)
  then have "\<bar>of_int k + 1 :: rat\<bar> \<le> 9007199254740992"
    by simp
  with safe_integer_of_int [OF assms] one show ?thesis
    by simp
qed

lemma increment_beyond_safe:
  "apply_op add (Increment 1) (JNum 9007199254740992) = JNum (add 9007199254740992 1)"
  by (simp add: safe_integer_def)

lemma created_user_fields:
  assumes "get_prop u ''totalProjects'' = JNum (of_int k)" and "\<bar>k\<bar> \<le> 9007199254740991"
    and "get_prop u ''projects'' = JArr ids"
  shows "get_prop (AList.update ''projects''
                    (apply_op add (ArrayUnion [JStr pid]) (get_prop u ''projects''))
                   (AList.update ''totalProjects''
                      (apply_op add (Increment 1) (get_prop u ''totalProjects'')) u)) f
         = (if f = ''projects''
            then JArr (if JStr pid \<in> set ids then ids else ids @ [JStr pid])
            else if f = ''totalProjects'' then JNum (of_int k + 1)
            else get_prop u f)"
  using assms(3)
  by (simp add: get_prop_update union_append_def assms(1) increment_safe [OF assms(2)]
      del: apply_op.simps(2))

lemma projectId_5000: "projectId_of (env_at 5000) = ''project_5000''"
  by (simp add: projectId_of_def env_at_def date_eval)

lemma doc_path_project_body: "doc_path (get_prop (project_body nm) ''userId'') = Some [''u1'']"
  by (simp add: project_body_def get_prop_def doc_path_def)

lemma storable_project_body: "storable_fields 1 (projectData (env_at t) (project_body nm))"
  by (simp add: projectData_def project_body_def get_prop_def js_or_def max_depth_def)

lemma one_project_eval:
  "one_project =
     \<lparr>users = [([''u1''],
                 [(''uid'', JStr ''u1''),
                  (''email'', JStr ''ann@example.org''),
                  (''name'', JStr ''Ann''),
                  (''createdAt'', JStr (toISOString 1000)),
                  (''lastLogin'', JStr (toISOString 1000)),
                  (''role'', JStr ''user''),
                  (''totalProjects'', JNum 1),
                  (''settings'', JObj [(''theme'', JStr ''light''), (''notifications'', JBool True)]),
                  (''projects'', JArr [JStr ''project_5000''])])],
      projects = [([''project_5000''], projectData (env_at 5000) (project_body ''Site''))]\<rparr>"
proof -
  obtain u where u: "map_of (users registered) [''u1''] = Some u"
    by (simp add: registered_eval)
  from create_project_success [OF doc_path_project_body u env_at_no_fault env_at_no_fault
      env_at_no_fault storable_project_body] u
  show ?thesis
    by (auto simp: one_project_def registered_eval projectId_5000 get_prop_def union_append_def
          safe_integer_def)
qed

lemma two_projects_eval:
  "two_projects =
     \<lparr>users = [([''u1''],
                 [(''uid'', JStr ''u1''),
                  (''email'', JStr ''ann@example.org''),
                  (''name'', JStr ''Ann''),
                  (''createdAt'', JStr (toISOString 1000)),
                  (''lastLogin'', JStr (toISOString 1000)),
                  (''role'', JStr ''user''),
                  (''totalProjects'', JNum 2),
                  (''settings'', JObj [(''theme'', JStr ''light''), (''notifications'', JBool True)]),
                  (''projects'', JArr [JStr ''project_5000''])])],
      projects = [([''project_5000''], projectData (env_at 5000) (project_body ''Shop''))]\<rparr>"
proof -
  obtain u where u: "map_of (users one_project) [''u1''] = Some u"
    by (simp add: one_project_eval)
  from create_project_success [OF doc_path_project_body u env_at_no_fault env_at_no_fault
      env_at_no_fault storable_project_body] u
  show ?thesis
    by (auto simp: two_projects_def one_project_eval projectId_5000 get_prop_def union_append_def
          safe_integer_def)
qed

text \<open>
  Claim C1, as amended. For a create-project request whose userId names an existing
  user record, whose name, type and description the store's \<^verbatim>\<open>set\<close> accepts (name and
  type are supplied; no map has an empty field name; nothing is nested too deep),
  whose store calls do not throw, where the stored \<^verbatim>\<open>totalProjects\<close> is a safe integer
  (of magnitude at most \<open>2^53 - 1\<close>) and the stored \<^verbatim>\<open>projects\<close> is a list that does not
  yet hold the id generated for this request: the answer is 200, the user's
  \<^verbatim>\<open>totalProjects\<close> is increased by exactly 1, exactly the new project id is appended to
  the user's list, every other field of the user stays, and the project record
  written under the new id has the request's userId as its owning-user id.
\<close>

theorem create_project_counts:
  assumes "doc_path (get_prop body ''userId'') = Some p" and "map_of (users st) p = Some u"
    and "store_fault e 0 = None" and "store_fault e 1 = None" and "store_fault e 2 = None"
    and "storable 1 (get_prop body ''name'')" and "storable 1 (get_prop body ''type'')"
    and "storable 1 (js_or (get_prop body ''description'') (JStr []))"
    and "get_prop u ''totalProjects'' = JNum (of_int k)" and "\<bar>k\<bar> \<le> 9007199254740991"
    and "get_prop u ''projects'' = JArr ids"
    and "JStr (projectId_of e) \<notin> set ids"
  shows "status (response (create_project e st body)) = 200
         \<and> (\<exists>u'. map_of (users (store_after (create_project e st body))) p = Some u'
               \<and> get_prop u' ''totalProjects'' = JNum (of_int k + 1)
               \<and> get_prop u' ''projects'' = JArr (ids @ [JStr (projectId_of e)])
               \<and> (\<forall>f. f \<noteq> ''totalProjects'' \<and> f \<noteq> ''projects'' \<longrightarrow> get_prop u' f = get_prop u f))
         \<and> map_of (projects (store_after (create_project e st body))) [projectId_of e]
             = Some (projectData e body)
         \<and> get_prop (projectData e body) ''userId'' = get_prop body ''userId''"
proof -
  from storable_projectData [OF assms(1), of e] assms(6-8)
  have "storable_fields 1 (projectData e body)" by simp
  note out = create_project_success [OF assms(1-5) this]
  have u: "\<And>f. get_prop (AList.update ''projects''
                    (apply_op (store_add e) (ArrayUnion [JStr (projectId_of e)])
                       (get_prop u ''projects''))
                   (AList.update ''totalProjects''
                      (apply_op (store_add e) (Increment 1) (get_prop u ''totalProjects'')) u)) f
         = (if f = ''projects'' then JArr (ids @ [JStr (projectId_of e)])
            else if f = ''totalProjects'' then JNum (of_int k + 1)
            else get_prop u f)"
    using created_user_fields [OF assms(9-11), of "store_add e" "projectId_of e"] assms(12)
    by (simp del: apply_op.simps)
  have "get_prop (projectData e body) ''userId'' = get_prop body ''userId''"
    by (simp add: projectData_def get_prop_def)
  then show ?thesis
    by (simp add: out update_conv' u del: apply_op.simps)
qed

theorem create_project_counts_witness:
  "doc_path (get_prop (project_body ''Site'') ''userId'') = Some [''u1'']
   \<and> map_of (users registered) [''u1''] \<noteq> None
   \<and> store_fault (env_at 5000) 0 = None \<and> store_fault (env_at 5000) 1 = None
   \<and> store_fault (env_at 5000) 2 = None
   \<and> storable 1 (get_prop (project_body ''Site'') ''name'')
   \<and> storable 1 (get_prop (project_body ''Site'') ''type'')
   \<and> storable 1 (js_or (get_prop (project_body ''Site'') ''description'') (JStr []))
   \<and> get_prop (snd (hd (users registered))) ''totalProjects'' = JNum (of_int 0)
   \<and> \<bar>0 :: int\<bar> \<le> 9007199254740991
   \<and> JStr (projectId_of (env_at 5000)) \<notin> set []
   \<and> status (response (create_project (env_at 5000) registered (project_body ''Site''))) = 200
   \<and> (\<exists>u'. map_of (users (store_after
                (create_project (env_at 5000) registered (project_body ''Site'')))) [''u1'']
              = Some u'
            \<and> get_prop u' ''totalProjects'' = JNum 1
            \<and> get_prop u' ''projects'' = JArr [JStr ''project_5000''])
   \<and> get_prop (projectData (env_at 5000) (project_body ''Site'')) ''userId'' = JStr ''u1''"
proof -
  obtain u where u: "map_of (users registered) [''u1''] = Some u"
    by (simp add: registered_eval)
  then have n: "get_prop u ''totalProjects'' = JNum (of_int 0)"
    and l: "get_prop u ''projects'' = JArr []"
    by (auto simp: registered_eval get_prop_def)
  have z: "get_prop (snd (hd (users registered))) ''totalProjects'' = JNum (of_int 0)"
    by (simp add: registered_eval get_prop_def)
  have b: "\<bar>0 :: int\<bar> \<le> 9007199254740991"
    by simp
  have s: "storable 1 (get_prop (project_body ''Site'') ''name'')"
      "storable 1 (get_prop (project_body ''Site'') ''type'')"
      "storable 1 (js_or (get_prop (project_body ''Site'') ''description'') (JStr []))"
    by (simp_all add: project_body_def get_prop_def js_or_def max_depth_def)
  have fr: "JStr (projectId_of (env_at 5000)) \<notin> set []"
    by simp
  have uid: "get_prop (project_body ''Site'') ''userId'' = JStr ''u1''"
    by (simp add: project_body_def get_prop_def)
  from create_project_counts [OF doc_path_project_body u env_at_no_fault env_at_no_fault
      env_at_no_fault s n b l fr]
  have "status (response (create_project (env_at 5000) registered (project_body ''Site''))) = 200
   \<and> (\<exists>u'. map_of (users (store_after
                (create_project (env_at 5000) registered (project_body ''Site'')))) [''u1'']
              = Some u'
            \<and> get_prop u' ''totalProjects'' = JNum 1
            \<and> get_prop u' ''projects'' = JArr [JStr ''project_5000''])
   \<and> get_prop (projectData (env_at 5000) (project_body ''Site'')) ''userId'' = JStr ''u1''"
    by (auto simp: projectId_5000 uid)
  with doc_path_project_body u s z b
  show ?thesis
    by (simp add: env_at_no_fault)
qed

text \<open>
  The claim as written fails: for the registered user and a body without a name, no
  store call throwing for a reason of the store's own, the answer is 500 and the user
  record (counter and list) is as before.
\<close>

theorem create_project_counts_counterexample:
  "doc_path (get_prop [(''userId'', JStr ''u1''), (''type'', JStr ''web'')] ''userId'') = Some [''u1'']
   \<and> map_of (users registered) [''u1''] \<noteq> None
   \<and> store_fault (env_at 5000) 0 = None \<and> store_fault (env_at 5000) 1 = None
   \<and> store_fault (env_at 5000) 2 = None
   \<and> status (response (create_project (env_at 5000) registered
        [(''userId'', JStr ''u1''), (''type'', JStr ''web'')])) = 500
   \<and> store_after (create_project (env_at 5000) registered
        [(''userId'', JStr ''u1''), (''type'', JStr ''web'')]) = registered
   \<and> get_prop (snd (hd (users registered))) ''totalProjects'' = JNum 0"
proof -
  have d: "doc_path (get_prop [(''userId'', JStr ''u1''), (''type'', JStr ''web'')] ''userId'')
            = Some [''u1'']"
    by (simp add: get_prop_def doc_path_def)
  obtain u where u: "map_of (users registered) [''u1''] = Some u"
    by (simp add: registered_eval)
  have n: "\<not> storable_fields 1
             (projectData (env_at 5000) [(''userId'', JStr ''u1''), (''type'', JStr ''web'')])"
    by (simp add: projectData_def get_prop_def)
  have z: "get_prop (snd (hd (users registered))) ''totalProjects'' = JNum 0"
    by (simp add: registered_eval get_prop_def)
  from create_project_rejected [OF d u env_at_no_fault n] d u z
  show ?thesis by (simp add: env_at_no_fault failure_def)
qed

text \<open>
  The user record that registration writes satisfies the counter invariant, and a
  successful project creation keeps it as long as the generated project id is not yet
  in the user's list (and the list is shorter than \<open>2^53 - 1\<close>).
\<close>

lemma register_counter_matches:
  "counter_matches (register_userData e uid email name)"
  by (simp add: counter_matches_def register_userData_def get_prop_def)

lemma create_project_users_after:
  assumes "doc_path (get_prop body ''userId'') = Some p" and "map_of (users st) p = Some u"
    and "status (response (create_project e st body)) = 200"
  shows "users (store_after (create_project e st body))
         = AList.update p
             (AList.update ''projects''
                (apply_op (store_add e) (ArrayUnion [JStr (projectId_of e)]) (get_prop u ''projects''))
               (AList.update ''totalProjects''
                 (apply_op (store_add e) (Increment 1) (get_prop u ''totalProjects'')) u))
             (users st)"
  using assms counter_update_ok [of "users st" p u "store_add e" "projectId_of e"]
  by (auto simp: create_project_def io_defs coll_def put_coll_def doc_set_def doc_path_projectId
        failure_def
      simp del: apply_op.simps
      split: option.splits if_splits)

lemma create_project_keeps_counter:
  assumes "doc_path (get_prop body ''userId'') = Some p" and "map_of (users st) p = Some u"
    and "status (response (create_project e st body)) = 200"
    and "get_prop u ''projects'' = JArr ids"
    and "get_prop u ''totalProjects'' = JNum (of_nat (length ids))"
    and "length ids < 9007199254740991"
    and "JStr (projectId_of e) \<notin> set ids"
  shows "\<exists>u'. map_of (users (store_after (create_project e st body))) p = Some u'
              \<and> counter_matches u'"
proof -
  have k: "get_prop u ''totalProjects'' = JNum (of_int (int (length ids)))"
    using assms(5) by simp
  have b: "\<bar>int (length ids)\<bar> \<le> 9007199254740991"
    using assms(6) by simp
  note f = created_user_fields [OF k b assms(4), of "store_add e" "projectId_of e"]
  let ?u' = "AList.update ''projects''
                (apply_op (store_add e) (ArrayUnion [JStr (projectId_of e)]) (get_prop u ''projects''))
               (AList.update ''totalProjects''
                 (apply_op (store_add e) (Increment 1) (get_prop u ''totalProjects'')) u)"
  have "get_prop ?u' ''projects'' = JArr (ids @ [JStr (projectId_of e)])"
    and "get_prop ?u' ''totalProjects'' = JNum (of_int (int (length ids)) + 1)"
    using f [of "''projects''"] f [of "''totalProjects''"] assms(7)
    by (simp_all del: apply_op.simps)
  then have "counter_matches ?u'"
    by (simp add: counter_matches_def del: apply_op.simps)
  moreover have "map_of (users (store_after (create_project e st body))) p = Some ?u'"
    by (simp add: create_project_users_after [OF assms(1-3)] update_conv' del: apply_op.simps)
  ultimately show ?thesis by blast
qed

text \<open>
  Claim C2 says that for a user record created by registration and changed only by
  successful project creations, \<^verbatim>\<open>totalProjects\<close> equals the number of entries of the
  \<^verbatim>\<open>projects\<close> list after every operation. The code breaks this when two creations
  for one user fall into the same millisecond: after a registration and two such
  creations, all three answered with success, both projects got the id
  \<^verbatim>\<open>project_5000\<close>, the second \<^verbatim>\<open>set\<close> has overwritten the first project record,
  \<^verbatim>\<open>arrayUnion\<close> has left the list at one entry and \<^verbatim>\<open>increment\<close> has raised the counter
  to 2.
\<close>

theorem counter_list_mismatch:
  "status (response (register True (env_at 1000) empty_store register_body)) = 200
   \<and> status (response (create_project (env_at 5000) registered (project_body ''Site''))) = 200
   \<and> status (response (create_project (env_at 5000) one_project (project_body ''Shop''))) = 200
   \<and> get_prop (snd (hd (users two_projects))) ''totalProjects'' = JNum 2
   \<and> get_prop (snd (hd (users two_projects))) ''projects'' = JArr [JStr ''project_5000'']
   \<and> \<not> counter_matches (snd (hd (users two_projects)))
   \<and> map fst (projects two_projects) = [[''project_5000'']]"
proof -
  obtain u where u: "map_of (users registered) [''u1''] = Some u"
    by (simp add: registered_eval)
  obtain u' where u': "map_of (users one_project) [''u1''] = Some u'"
    by (simp add: one_project_eval)
  have r: "status (response (register True (env_at 1000) empty_store register_body)) = 200"
    by (simp add: register_def register_body_def register_userData_def env_at_def
        empty_store_def io_defs get_prop_def doc_path_def doc_set_def coll_def put_coll_def
        max_depth_def)
  have a: "status (response (create_project (env_at 5000) registered (project_body ''Site''))) = 200"
    by (simp add: create_project_success [OF doc_path_project_body u env_at_no_fault
          env_at_no_fault env_at_no_fault storable_project_body])
  have b: "status (response (create_project (env_at 5000) one_project (project_body ''Shop''))) = 200"
    by (simp add: create_project_success [OF doc_path_project_body u' env_at_no_fault
          env_at_no_fault env_at_no_fault storable_project_body])
  show ?thesis
    using r a b by (simp add: two_projects_eval get_prop_def counter_matches_def)
qed

theorem counter_list_mismatch_witness:
  "get_prop (snd (hd (users two_projects))) ''totalProjects'' = JNum 2
   \<and> get_prop (snd (hd (users two_projects))) ''projects'' = JArr [JStr ''project_5000'']
   \<and> length [JStr ''project_5000''] = 1
   \<and> length (projects two_projects) = 1"
proof -
  from counter_list_mismatch
  have "get_prop (snd (hd (users two_projects))) ''totalProjects'' = JNum 2"
    and "get_prop (snd (hd (users two_projects))) ''projects'' = JArr [JStr ''project_5000'']"
    and "map fst (projects two_projects) = [[''project_5000'']]"
    by simp_all
  moreover from this(3)
  have "length (map fst (projects two_projects)) = length [[''project_5000'']]"
    by (rule arg_cong)
  then have "length (projects two_projects) = 1"
    by simp
  ultimately show ?thesis by simp
qed

section \<open>Listing a user's projects\<close>

subsection \<open>Sorting with a comparison function\<close>

lemma mset_insert_by: "mset (insert_by le x xs) = add_mset x (mset xs)"
  by (induction xs) auto

lemma mset_sort_by: "mset (sort_by le xs) = mset xs"
  by (induction xs) (auto simp: mset_insert_by)

lemma set_insert_by: "set (insert_by le x xs) = insert x (set xs)"
  by (induction xs) auto

lemma sorted_insert_by:
  assumes tot: "\<And>a b. le a b \<or> le b a" and tr: "\<And>a b c. le a b \<Longrightarrow> le b c \<Longrightarrow> le a c"
  shows "sorted_wrt le xs \<Longrightarrow> sorted_wrt le (insert_by le x xs)"
proof (induction xs)
  case Nil
  then show ?case by simp
next
  case (Cons y ys)
  show ?case
  proof (cases "le x y")
    case True
    with Cons.prems tr show ?thesis by auto
  next
    case False
    with tot have "le y x" by blast
    with Cons False show ?thesis by (auto simp: set_insert_by)
  qed
qed

lemma sorted_sort_by:
  assumes "\<And>a b. le a b \<or> le b a" and "\<And>a b c. le a b \<Longrightarrow> le b c \<Longrightarrow> le a c"
  shows "sorted_wrt le (sort_by le xs)"
  by (induction xs) (auto intro: sorted_insert_by [OF assms])

lemma doc_before_total:
  assumes "\<forall>a b. vle a b \<or> vle b a"
  shows "doc_before vle f x y \<or> doc_before vle f y x"
  using assms by (auto simp: doc_before_def)

lemma doc_before_trans:
  assumes tr: "\<forall>a b c. vle a b \<longrightarrow> vle b c \<longrightarrow> vle a c"
    and "doc_before vle f x y" and "doc_before vle f y z"
  shows "doc_before vle f x z"
proof -
  let ?a = "get_prop (snd x) f" and ?b = "get_prop (snd y) f" and ?c = "get_prop (snd z) f"
  from tr have t: "\<And>a b c. vle a b \<Longrightarrow> vle b c \<Longrightarrow> vle a c" by blast
  show ?thesis
  proof (cases "vle ?a ?b \<and> vle ?b ?a")
    case xy: True
    show ?thesis
    proof (cases "vle ?b ?c \<and> vle ?c ?b")
      case True
      with xy assms(2,3) have "fst z \<le> fst x" "vle ?a ?c" "vle ?c ?a"
        by (auto simp: doc_before_def intro: t)
      then show ?thesis by (simp add: doc_before_def)
    next
      case False
      with assms(3) have cb: "vle ?c ?b" and nbc: "\<not> vle ?b ?c" by (auto simp: doc_before_def)
      from cb xy have "vle ?c ?a" by (blast intro: t)
      moreover have "\<not> vle ?a ?c" using nbc xy by (blast intro: t)
      ultimately show ?thesis by (simp add: doc_before_def)
    qed
  next
    case False
    with assms(2) have ba: "vle ?b ?a" and nab: "\<not> vle ?a ?b" by (auto simp: doc_before_def)
    from assms(3) have cb: "vle ?c ?b" by (auto simp: doc_before_def split: if_splits)
    from cb ba have "vle ?c ?a" by (blast intro: t)
    moreover have "\<not> vle ?a ?c" using nab cb by (blast intro: t)
    ultimately show ?thesis by (simp add: doc_before_def)
  qed
qed

lemma doc_before_desc: "doc_before vle f x y \<Longrightarrow> vle (get_prop (snd y) f) (get_prop (snd x) f)"
  by (auto simp: doc_before_def split: if_splits)

lemma query_desc_sorted:
  assumes "\<forall>a b. vle a b \<or> vle b a" and "\<forall>a b c. vle a b \<longrightarrow> vle b c \<longrightarrow> vle a c"
  shows "sorted_wrt (\<lambda>a b. vle (get_prop b f2) (get_prop a f2)) (query_desc vle c f1 v f2)"
proof -
  have "sorted_wrt (doc_before vle f2) (sort_by (doc_before vle f2) (filter (query_matches f1 v f2) c))"
  proof (rule sorted_sort_by)
    show "\<And>a b. doc_before vle f2 a b \<or> doc_before vle f2 b a"
      by (rule doc_before_total [OF assms(1)])
    show "\<And>a b c. doc_before vle f2 a b \<Longrightarrow> doc_before vle f2 b c \<Longrightarrow> doc_before vle f2 a c"
      by (rule doc_before_trans [OF assms(2)])
  qed
  then have "sorted_wrt (\<lambda>x y. vle (get_prop (snd y) f2) (get_prop (snd x) f2))
               (sort_by (doc_before vle f2) (filter (query_matches f1 v f2) c))"
    by (rule sorted_wrt_mono_rel [rotated]) (auto dest: doc_before_desc)
  then show ?thesis
    by (simp add: query_desc_def sorted_wrt_map)
qed

lemma query_desc_mset:
  "mset (query_desc vle c f1 v f2) = mset (map snd (filter (query_matches f1 v f2) c))"
  unfolding query_desc_def
  by (metis mset_map mset_sort_by)

text \<open>
  Claim C3. A list-user-projects request whose query does not throw, on a store whose
  project records are as the API writes them, is answered 200 with a list that holds
  exactly the project records whose \<^verbatim>\<open>userId\<close> field equals the given userId (each as
  often as it is stored), in descending order of \<^verbatim>\<open>createdAt\<close> under the store's order of
  values (any total, transitive order), and with a count equal to the length of the
  list. The only call made is the query on the project collection: the user record is
  not read, and the store is unchanged.
\<close>

theorem list_projects_sorted:
  assumes "\<forall>a b. vle a b \<or> vle b a" and "\<forall>a b c. vle a b \<longrightarrow> vle b c \<longrightarrow> vle a c"
    and "store_fault e 0 = None"
    and "projects_wf st"
  shows "\<exists>docs. response (list_projects vle e st userId)
                 = \<lparr>status = 200,
                    json = [(''success'', JBool True),
                            (''projects'', JArr (map JObj docs)),
                            (''count'', JNum (of_nat (length docs)))]\<rparr>
           \<and> mset docs
               = mset (map snd (filter (\<lambda>kd. map_of (snd kd) ''userId'' = Some (JStr userId))
                                  (projects st)))
           \<and> sorted_wrt (\<lambda>a b. vle (get_prop b ''createdAt'') (get_prop a ''createdAt'')) docs
           \<and> store_after (list_projects vle e st userId) = st
           \<and> calls (list_projects vle e st userId)
               = [Query Projects ''userId'' (JStr userId) ''createdAt'']"
proof -
  let ?docs = "query_desc vle (projects st) ''userId'' (JStr userId) ''createdAt''"
  have f: "filter (query_matches ''userId'' (JStr userId) ''createdAt'') (projects st)
           = filter (\<lambda>kd. map_of (snd kd) ''userId'' = Some (JStr userId)) (projects st)"
    using assms(4) by (intro filter_cong) (auto simp: projects_wf_def query_matches_def)
  have "response (list_projects vle e st userId)
                 = \<lparr>status = 200,
                    json = [(''success'', JBool True),
                            (''projects'', JArr (map JObj ?docs)),
                            (''count'', JNum (of_nat (length ?docs)))]\<rparr>
        \<and> store_after (list_projects vle e st userId) = st
        \<and> calls (list_projects vle e st userId)
               = [Query Projects ''userId'' (JStr userId) ''createdAt'']"
    using assms(3) by (simp add: list_projects_def io_defs coll_def)
  moreover have "mset ?docs
               = mset (map snd (filter (\<lambda>kd. map_of (snd kd) ''userId'' = Some (JStr userId))
                                  (projects st)))"
    by (simp only: query_desc_mset f)
  moreover note query_desc_sorted [OF assms(1,2), of "''createdAt''" "projects st" "''userId''" "JStr userId"]
  ultimately show ?thesis by blast
qed


subsection \<open>A listing evaluated\<close>

lemma sample_vle_total: "sample_vle a b \<or> sample_vle b a"
  by (cases a; cases b) (auto simp: sample_vle_def)

lemma sample_vle_trans: "sample_vle a b \<Longrightarrow> sample_vle b c \<Longrightarrow> sample_vle a c"
  by (cases a; cases b; cases c) (auto simp: sample_vle_def)

lemma projectId_7000: "projectId_of (env_at 7000) = ''project_7000''"
  by (simp add: projectId_of_def env_at_def date_eval)

lemma later_project_eval:
  "later_project =
     \<lparr>users = [([''u1''],
                 [(''uid'', JStr ''u1''),
                  (''email'', JStr ''ann@example.org''),
                  (''name'', JStr ''Ann''),
                  (''createdAt'', JStr (toISOString 1000)),
                  (''lastLogin'', JStr (toISOString 1000)),
                  (''role'', JStr ''user''),
                  (''totalProjects'', JNum 2),
                  (''settings'', JObj [(''theme'', JStr ''light''), (''notifications'', JBool True)]),
                  (''projects'', JArr [JStr ''project_5000'', JStr ''project_7000''])])],
      projects = [([''project_5000''], projectData (env_at 5000) (project_body ''Site'')),
                  ([''project_7000''], projectData (env_at 7000) (project_body ''Shop''))]\<rparr>"
proof -
  obtain u where u: "map_of (users one_project) [''u1''] = Some u"
    by (simp add: one_project_eval)
  from create_project_success [OF doc_path_project_body u env_at_no_fault env_at_no_fault
      env_at_no_fault storable_project_body] u
  show ?thesis
    by (auto simp: later_project_def one_project_eval projectId_7000 get_prop_def union_append_def
          safe_integer_def)
qed

lemma projects_wf_later: "projects_wf later_project"
  by (simp add: projects_wf_def later_project_eval projectData_def)

lemma iso_5000: "toISOString 5000 = ''1970-01-01T00:00:05.000Z''" 
  by (simp add: date_eval)
lemma iso_7000: "toISOString 7000 = ''1970-01-01T00:00:07.000Z''" 
  by (simp add: date_eval)

lemma later_listing:
  "query_desc sample_vle (projects later_project) ''userId'' (JStr ''u1'') ''createdAt''
   = [projectData (env_at 7000) (project_body ''Shop''),
      projectData (env_at 5000) (project_body ''Site'')]"
  by (simp add: query_desc_def later_project_eval query_matches_def projectData_def
        project_body_def get_prop_def doc_before_def sample_vle_def env_at_def iso_5000 iso_7000
        less_eq_char_def less_char_def)


theorem list_projects_sorted_witness:
  "store_fault (env_at 9000) 0 = None
   \<and> projects_wf later_project
   \<and> (\<exists>docs. response (list_projects sample_vle (env_at 9000) later_project ''u1'')
                 = \<lparr>status = 200,
                    json = [(''success'', JBool True),
                            (''projects'', JArr (map JObj docs)),
                            (''count'', JNum (of_nat (length docs)))]\<rparr>
           \<and> mset docs
               = mset (map snd (filter (\<lambda>kd. map_of (snd kd) ''userId'' = Some (JStr ''u1''))
                                  (projects later_project)))
           \<and> sorted_wrt (\<lambda>a b. sample_vle (get_prop b ''createdAt'') (get_prop a ''createdAt'')) docs
           \<and> store_after (list_projects sample_vle (env_at 9000) later_project ''u1'') = later_project
           \<and> calls (list_projects sample_vle (env_at 9000) later_project ''u1'')
               = [Query Projects ''userId'' (JStr ''u1'') ''createdAt''])
   \<and> json (response (list_projects sample_vle (env_at 9000) later_project ''u1''))
       = [(''success'', JBool True),
          (''projects'', JArr [JObj (projectData (env_at 7000) (project_body ''Shop'')),
                               JObj (projectData (env_at 5000) (project_body ''Site''))]),
          (''count'', JNum 2)]"
proof -
  have tot: "\<forall>a b. sample_vle a b \<or> sample_vle b a"
    by (simp add: sample_vle_total)
  have tr: "\<forall>a b c. sample_vle a b \<longrightarrow> sample_vle b c \<longrightarrow> sample_vle a c"
    by (blast intro: sample_vle_trans)
  have c: "json (response (list_projects sample_vle (env_at 9000) later_project ''u1''))
       = [(''success'', JBool True),
          (''projects'', JArr [JObj (projectData (env_at 7000) (project_body ''Shop'')),
                               JObj (projectData (env_at 5000) (project_body ''Site''))]),
          (''count'', JNum 2)]"
    by (simp add: list_projects_def io_defs coll_def env_at_no_fault later_listing)
  from list_projects_sorted [OF tot tr env_at_no_fault projects_wf_later, of 9000 "''u1''"]
    c projects_wf_later
  show ?thesis by (simp add: env_at_no_fault)
qed

subsection \<open>Project records stay well formed\<close>

text \<open>Every handler keeps the project records as the listing expects them: only
  \<^verbatim>\<open>POST /api/projects\<close> writes to the collection, and what it writes has a
  \<^verbatim>\<open>createdAt\<close>.\<close>

lemma set_alist_update: "set (AList.update k v al) \<subseteq> insert (k, v) (set al)"
  by (induction al) auto

lemma projects_wf_update:
  assumes "projects_wf st" and "map_of d ''createdAt'' \<noteq> None"
    and "projects st' = AList.update [pid] d (projects st)"
  shows "projects_wf st'"
  using assms set_alist_update [of "[pid]" d "projects st"]
  by (auto simp: projects_wf_def)

lemma create_project_projects_wf:
  assumes "projects_wf st"
  shows "projects_wf (store_after (create_project e st body))"
proof -
  have c: "map_of (projectData e body) ''createdAt'' \<noteq> None"
    by (simp add: projectData_def)
  have "projects (store_after (create_project e st body)) = projects st
        \<or> projects (store_after (create_project e st body))
             = AList.update [projectId_of e] (projectData e body) (projects st)"
    by (auto simp: create_project_def io_defs coll_def put_coll_def doc_set_def
          doc_path_projectId split: option.splits sum.splits if_splits)
  then show ?thesis
  proof
    assume "projects (store_after (create_project e st body)) = projects st"
    with assms show ?thesis by (simp add: projects_wf_def)
  next
    assume "projects (store_after (create_project e st body))
             = AList.update [projectId_of e] (projectData e body) (projects st)"
    from projects_wf_update [OF assms c this] show ?thesis .
  qed
qed

lemma other_handlers_keep_projects:
  "projects (store_after (register fi e st body)) = projects st"
  "projects (store_after (login fi e st body)) = projects st"
  "projects (store_after (get_user e st userId)) = projects st"
  "projects (store_after (update_user e st userId body)) = projects st"
  "projects (store_after (list_projects vle e st userId)) = projects st"
  by (auto simp: register_def login_def get_user_def update_user_def list_projects_def
        email_local_part_def io_defs coll_def put_coll_def
        split: option.splits sum.splits if_splits js.splits)

section \<open>Updating a user\<close>

subsection \<open>Writes at field paths\<close>

lemma split_on_not_Nil: "split_on c s \<noteq> []"
  by (induction s) (auto split: list.splits)

lemma hd_split_on: "hd (split_on c s) = takeWhile (\<lambda>x. x \<noteq> c) s"
  by (induction s) (auto split: list.splits simp: split_on_not_Nil)

lemma field_path_Some: "field_path k = Some ps \<Longrightarrow> ps = split_on (CHR ''.'') k"
  by (auto simp: field_path_def split: if_splits)

lemma field_path_plain:
  "field_path k = Some ps \<Longrightarrow> CHR ''.'' \<notin> set k \<Longrightarrow> ps = [k]"
  by (auto simp: field_path_def split_on_no_sep split: if_splits)

lemma those_Some: "those xs = Some ys \<Longrightarrow> xs = map Some ys"
  by (induction xs arbitrary: ys) (auto split: option.splits)

lemma those_field_paths:
  assumes "those (map (\<lambda>u. field_path (fst u)) ups) = Some ps"
  shows "ps = map (\<lambda>u. split_on (CHR ''.'') (fst u)) ups"
proof -
  from those_Some [OF assms] have m: "map (\<lambda>u. field_path (fst u)) ups = map Some ps" .
  then have len: "length ps = length ups"
    by (metis length_map)
  show ?thesis
  proof (rule nth_equalityI)
    show "length ps = length (map (\<lambda>u. split_on (CHR ''.'') (fst u)) ups)"
      using len by simp
  next
    fix i assume i: "i < length ps"
    with len m have "field_path (fst (ups ! i)) = Some (ps ! i)"
      by (metis nth_map)
    from field_path_Some [OF this] i len
    show "ps ! i = map (\<lambda>u. split_on (CHR ''.'') (fst u)) ups ! i" by simp
  qed
qed

lemma upd_path_frame:
  assumes "p \<noteq> []" and "hd p \<noteq> f"
  shows "get_prop (upd_path p g d) f = get_prop d f"
  using assms by (cases "(p, g, d)" rule: upd_path.cases) (auto simp: get_prop_update)

lemma apply_updates_Cons:
  "apply_updates add d (u # ups) = apply_updates add (upd_path (fst u) (apply_op add (snd u)) d) ups"
  by (simp add: apply_updates_def)

lemma apply_updates_frame:
  assumes "\<forall>u \<in> set ups. fst u \<noteq> [] \<and> hd (fst u) \<noteq> f"
  shows "get_prop (apply_updates add d ups) f = get_prop d f"
  using assms
proof (induction ups arbitrary: d)
  case Nil
  then show ?case by (simp add: apply_updates_def)
next
  case (Cons u ups)
  then show ?case by (simp add: apply_updates_Cons upd_path_frame)
qed

lemma no_conflicts_Cons:
  assumes "no_conflicts (p # ps)"
  shows "no_conflicts ps" and "p \<notin> set ps" and "\<forall>q \<in> set ps. \<not> prefix p q"
proof -
  from assms have d: "distinct (p # ps)"
    and c: "\<And>a b. a \<in> set (p # ps) \<Longrightarrow> b \<in> set (p # ps) \<Longrightarrow> a \<noteq> b \<Longrightarrow> \<not> prefix a b"
    unfolding no_conflicts_def by blast+
  from d show "p \<notin> set ps" by simp
  from d c show "no_conflicts ps" unfolding no_conflicts_def by simp
  show "\<forall>q \<in> set ps. \<not> prefix p q"
  proof
    fix q assume q: "q \<in> set ps"
    with d have "p \<noteq> q" by auto
    with c [of p q] q show "\<not> prefix p q" by simp
  qed
qed

lemma apply_updates_plain:
  assumes "([k], SetTo v) \<in> set ups"
    and "no_conflicts (map fst ups)"
    and "\<forall>u \<in> set ups. fst u \<noteq> []"
  shows "get_prop (apply_updates add d ups) k = v"
  using assms
proof (induction ups arbitrary: d)
  case Nil
  then show ?case by simp
next
  case (Cons u ups)
  from Cons.prems(2) have ncu: "no_conflicts (fst u # map fst ups)" by simp
  note nc = no_conflicts_Cons [OF ncu]
  from Cons.prems(3) have ne: "\<forall>w \<in> set ups. fst w \<noteq> []" by simp
  show ?case
  proof (cases "([k], SetTo v) \<in> set ups")
    case True
    from Cons.IH [OF True nc(1) ne] show ?thesis
      by (simp only: apply_updates_Cons)
  next
    case False
    with Cons.prems(1) have u: "u = ([k], SetTo v)" by simp
    then have fu: "fst u = [k]" by simp
    have "\<forall>w \<in> set ups. fst w \<noteq> [] \<and> hd (fst w) \<noteq> k"
    proof
      fix w assume w: "w \<in> set ups"
      then have m: "fst w \<in> set (map fst ups)" by simp
      from nc(3) m have "\<not> prefix [k] (fst w)" unfolding fu by blast
      moreover from ne w have "fst w \<noteq> []" by blast
      ultimately show "fst w \<noteq> [] \<and> hd (fst w) \<noteq> k"
        by (cases "fst w") simp_all
    qed
    from apply_updates_frame [OF this, of add "upd_path (fst u) (apply_op add (snd u)) d"]
    have "get_prop (apply_updates add d (u # ups)) k
          = get_prop (upd_path (fst u) (apply_op add (snd u)) d) k"
      by (simp only: apply_updates_Cons)
    also have "\<dots> = v"
      by (simp add: u get_prop_update)
    finally show ?thesis .
  qed
qed


subsection \<open>The handler\<close>

lemma stripped_lookup:
  "map_of (stripped_updates e body) k
   = (if k = ''updatedAt'' then Some (JStr (toISOString (clock e 0)))
      else if k \<in> {''uid'', ''email'', ''createdAt''} then None
      else map_of body k)"
  by (simp add: stripped_updates_def update_conv' delete_conv')

lemma stripped_keys:
  "''uid'' \<notin> fst ` set (stripped_updates e body)"
  "''email'' \<notin> fst ` set (stripped_updates e body)"
  "''createdAt'' \<notin> fst ` set (stripped_updates e body)"
  by (simp_all add: stripped_lookup flip: map_of_eq_None_iff)

lemma doc_update_Inr:
  assumes "doc_update add c p ups = Inr c'"
  shows "\<exists>d. map_of c p = Some d
             \<and> no_conflicts (map (\<lambda>u. split_on (CHR ''.'') (fst u)) ups)
             \<and> (\<forall>u \<in> set ups. field_path (fst u) \<noteq> None)
             \<and> c' = AList.update p
                      (apply_updates add d (map (\<lambda>u. (split_on (CHR ''.'') (fst u), snd u)) ups)) c"
proof -
  from assms obtain ps d where
    th: "those (map (\<lambda>u. field_path (fst u)) ups) = Some ps"
    and nc: "no_conflicts ps" and d: "map_of c p = Some d"
    and c': "c' = AList.update p (apply_updates add d (zip ps (map snd ups))) c"
    by (auto simp: doc_update_def split: if_splits option.splits)
  from those_field_paths [OF th] have ps: "ps = map (\<lambda>u. split_on (CHR ''.'') (fst u)) ups" .
  have z: "zip ps (map snd ups) = map (\<lambda>u. (split_on (CHR ''.'') (fst u), snd u)) ups"
    unfolding ps by (induction ups) auto
  from those_Some [OF th] have "\<forall>u \<in> set ups. field_path (fst u) \<noteq> None"
    by (induction ups arbitrary: ps) auto
  with nc d c' show ?thesis unfolding z unfolding ps by blast
qed

lemma update_user_success:
  assumes "status (response (update_user e st userId body)) = 200"
  shows "\<exists>p c'. doc_path (JStr userId) = Some p
           \<and> doc_update (store_add e) (users st) p
                (map (\<lambda>kv. (fst kv, SetTo (snd kv))) (stripped_updates e body)) = Inr c'
           \<and> update_user e st userId body =
               \<lparr>response =
                  \<lparr>status = 200,
                   json = [(''success'', JBool True),
                           (''user'', (case map_of c' p of None \<Rightarrow> JUndefined | Some d \<Rightarrow> JObj d)),
                           (''message'', JStr ''Profile updated successfully'')]\<rparr>,
                store_after = st\<lparr>users := c'\<rparr>,
                calls = [DocUpdate Users p
                           (map (\<lambda>kv. (fst kv, SetTo (snd kv))) (stripped_updates e body)),
                         DocGet Users p]\<rparr>"
  using assms
  by (auto simp: update_user_def io_defs coll_def put_coll_def failure_def
      split: option.splits sum.splits)

lemma update_user_calls:
  assumes "DocUpdate c p ups \<in> set (calls (update_user e st userId body))"
  shows "ups = map (\<lambda>kv. (fst kv, SetTo (snd kv))) (stripped_updates e body)"
  using assms
  by (auto simp: update_user_def io_defs coll_def put_coll_def failure_def
      split: option.splits sum.splits)

text \<open>
  What every update-user request does: the field map that reaches the store's
  \<^verbatim>\<open>update\<close> has no key \<^verbatim>\<open>uid\<close>, \<^verbatim>\<open>email\<close> or \<^verbatim>\<open>createdAt\<close>, whatever the body held, it
  carries \<^verbatim>\<open>updatedAt\<close> with the time of the request, and every other key has its value
  from the body. When the request succeeds, the stored record is the old one merged
  with that map: a key without dots has the map's value, a field that no key names
  (as itself or as the first segment of a dotted path) has its old value, other
  users' records and the projects are untouched; and the answer carries the record as
  re-read from the store.
\<close>

lemma update_user_merge:
  "''uid'' \<notin> fst ` set (stripped_updates e body)
   \<and> ''email'' \<notin> fst ` set (stripped_updates e body)
   \<and> ''createdAt'' \<notin> fst ` set (stripped_updates e body)
   \<and> map_of (stripped_updates e body) ''updatedAt'' = Some (JStr (toISOString (clock e 0)))
   \<and> (\<forall>k. k \<notin> {''uid'', ''email'', ''createdAt'', ''updatedAt''}
          \<longrightarrow> map_of (stripped_updates e body) k = map_of body k)
   \<and> (\<forall>c p ups. DocUpdate c p ups \<in> set (calls (update_user e st userId body))
          \<longrightarrow> ups = map (\<lambda>kv. (fst kv, SetTo (snd kv))) (stripped_updates e body))
   \<and> (status (response (update_user e st userId body)) = 200 \<longrightarrow>
        (\<exists>p d d'. doc_path (JStr userId) = Some p
           \<and> map_of (users st) p = Some d
           \<and> map_of (users (store_after (update_user e st userId body))) p = Some d'
           \<and> json (response (update_user e st userId body))
               = [(''success'', JBool True), (''user'', JObj d'),
                  (''message'', JStr ''Profile updated successfully'')]
           \<and> (\<forall>k v. map_of (stripped_updates e body) k = Some v \<and> CHR ''.'' \<notin> set k
                  \<longrightarrow> get_prop d' k = v)
           \<and> (\<forall>f. (\<forall>k \<in> fst ` set (stripped_updates e body).
                        takeWhile (\<lambda>ch. ch \<noteq> CHR ''.'') k \<noteq> f)
                  \<longrightarrow> get_prop d' f = get_prop d f)
           \<and> (\<forall>q. q \<noteq> p \<longrightarrow> map_of (users (store_after (update_user e st userId body))) q
                               = map_of (users st) q)
           \<and> projects (store_after (update_user e st userId body)) = projects st))"
proof -
  let ?S = "stripped_updates e body"
  let ?out = "update_user e st userId body"
  have A: "''uid'' \<notin> fst ` set ?S \<and> ''email'' \<notin> fst ` set ?S \<and> ''createdAt'' \<notin> fst ` set ?S
     \<and> map_of ?S ''updatedAt'' = Some (JStr (toISOString (clock e 0)))
     \<and> (\<forall>k. k \<notin> {''uid'', ''email'', ''createdAt'', ''updatedAt''} \<longrightarrow> map_of ?S k = map_of body k)"
    by (simp add: stripped_keys stripped_lookup)
  have B: "\<forall>c p ups. DocUpdate c p ups \<in> set (calls ?out)
          \<longrightarrow> ups = map (\<lambda>kv. (fst kv, SetTo (snd kv))) ?S"
    by (blast dest: update_user_calls)
  have C: "\<exists>p d d'. doc_path (JStr userId) = Some p
           \<and> map_of (users st) p = Some d
           \<and> map_of (users (store_after ?out)) p = Some d'
           \<and> json (response ?out)
               = [(''success'', JBool True), (''user'', JObj d'),
                  (''message'', JStr ''Profile updated successfully'')]
           \<and> (\<forall>k v. map_of ?S k = Some v \<and> CHR ''.'' \<notin> set k \<longrightarrow> get_prop d' k = v)
           \<and> (\<forall>f. (\<forall>k \<in> fst ` set ?S. takeWhile (\<lambda>ch. ch \<noteq> CHR ''.'') k \<noteq> f)
                  \<longrightarrow> get_prop d' f = get_prop d f)
           \<and> (\<forall>q. q \<noteq> p \<longrightarrow> map_of (users (store_after ?out)) q = map_of (users st) q)
           \<and> projects (store_after ?out) = projects st"
    if ok: "status (response ?out) = 200"
  proof -
    let ?ups = "map (\<lambda>kv. (fst kv, SetTo (snd kv))) ?S"
    let ?pups = "map (\<lambda>u. (split_on (CHR ''.'') (fst u), snd u)) ?ups"
    from update_user_success [OF ok] obtain p c' where
      p: "doc_path (JStr userId) = Some p"
      and du: "doc_update (store_add e) (users st) p ?ups = Inr c'"
      and out: "?out = \<lparr>response =
                  \<lparr>status = 200,
                   json = [(''success'', JBool True),
                           (''user'', (case map_of c' p of None \<Rightarrow> JUndefined | Some d \<Rightarrow> JObj d)),
                           (''message'', JStr ''Profile updated successfully'')]\<rparr>,
                store_after = st\<lparr>users := c'\<rparr>,
                calls = [DocUpdate Users p ?ups, DocGet Users p]\<rparr>"
      by blast
    from doc_update_Inr [OF du] obtain d where
      d: "map_of (users st) p = Some d"
      and nc: "no_conflicts (map (\<lambda>u. split_on (CHR ''.'') (fst u)) ?ups)"
      and c': "c' = AList.update p (apply_updates (store_add e) d ?pups) (users st)"
      by blast
    let ?d' = "apply_updates (store_add e) d ?pups"
    have lk: "\<And>q. map_of c' q = (if q = p then Some ?d' else map_of (users st) q)"
      by (simp add: c' update_conv')
    have fsts: "map fst ?pups = map (\<lambda>u. split_on (CHR ''.'') (fst u)) ?ups"
      by simp
    have ne: "\<forall>u \<in> set ?pups. fst u \<noteq> []"
      by (auto simp: split_on_not_Nil)
    have plain: "get_prop ?d' k = v" if "map_of ?S k = Some v \<and> CHR ''.'' \<notin> set k" for k v
    proof -
      from that have "(k, v) \<in> set ?S" by (blast dest: map_of_SomeD)
      then have "(split_on (CHR ''.'') k, SetTo v) \<in> set ?pups" by force
      with that have "([k], SetTo v) \<in> set ?pups" by (simp add: split_on_no_sep)
      from apply_updates_plain [OF this _ ne] nc show ?thesis
        unfolding fsts by blast
    qed
    have frame: "get_prop ?d' f = get_prop d f"
      if "\<forall>k \<in> fst ` set ?S. takeWhile (\<lambda>ch. ch \<noteq> CHR ''.'') k \<noteq> f" for f
    proof -
      from that have "\<forall>u \<in> set ?pups. fst u \<noteq> [] \<and> hd (fst u) \<noteq> f"
        by (auto simp: split_on_not_Nil hd_split_on)
      from apply_updates_frame [OF this] show ?thesis .
    qed
    have "map_of (users (store_after ?out)) p = Some ?d'"
      and "json (response ?out)
               = [(''success'', JBool True), (''user'', JObj ?d'),
                  (''message'', JStr ''Profile updated successfully'')]"
      and "\<forall>q. q \<noteq> p \<longrightarrow> map_of (users (store_after ?out)) q = map_of (users st) q"
      and "projects (store_after ?out) = projects st"
      by (simp_all add: out lk)
    with p d plain frame show ?thesis by blast
  qed
  from C have C': "status (response ?out) = 200 \<longrightarrow>
        (\<exists>p d d'. doc_path (JStr userId) = Some p
           \<and> map_of (users st) p = Some d
           \<and> map_of (users (store_after ?out)) p = Some d'
           \<and> json (response ?out)
               = [(''success'', JBool True), (''user'', JObj d'),
                  (''message'', JStr ''Profile updated successfully'')]
           \<and> (\<forall>k v. map_of ?S k = Some v \<and> CHR ''.'' \<notin> set k \<longrightarrow> get_prop d' k = v)
           \<and> (\<forall>f. (\<forall>k \<in> fst ` set ?S. takeWhile (\<lambda>ch. ch \<noteq> CHR ''.'') k \<noteq> f)
                  \<longrightarrow> get_prop d' f = get_prop d f)
           \<and> (\<forall>q. q \<noteq> p \<longrightarrow> map_of (users (store_after ?out)) q = map_of (users st) q)
           \<and> projects (store_after ?out) = projects st)"
    by (rule impI)
  show ?thesis
    using A B C' by (intro conjI) (elim conjE, assumption)+
qed


subsection \<open>An update evaluated\<close>

lemma stripped_update_body:
  "stripped_updates (env_at 3000) update_body
   = [(''name'', JStr ''Anna''), (''settings.theme'', JStr ''dark''),
      (''updatedAt'', JStr (toISOString 3000))]"
  by (simp add: stripped_updates_def update_body_def env_at_def)

lemma update_body_paths:
  "field_path ''name'' = Some [''name'']"
  "field_path ''settings.theme'' = Some [''settings'', ''theme'']"
  "field_path ''updatedAt'' = Some [''updatedAt'']"
  by (simp_all add: field_path_def)

lemma updated_eval:
  "update_user (env_at 3000) registered ''u1'' update_body =
     \<lparr>response =
        \<lparr>status = 200,
         json = [(''success'', JBool True),
                 (''user'', JObj [(''uid'', JStr ''u1''),
                    (''email'', JStr ''ann@example.org''),
                    (''name'', JStr ''Anna''),
                    (''createdAt'', JStr (toISOString 1000)),
                    (''lastLogin'', JStr (toISOString 1000)),
                    (''role'', JStr ''user''),
                    (''totalProjects'', JNum 0),
                    (''settings'', JObj [(''theme'', JStr ''dark''), (''notifications'', JBool True)]),
                    (''projects'', JArr []),
                    (''updatedAt'', JStr (toISOString 3000))]),
                 (''message'', JStr ''Profile updated successfully'')]\<rparr>,
      store_after =
        \<lparr>users = [([''u1''],
                   [(''uid'', JStr ''u1''),
                    (''email'', JStr ''ann@example.org''),
                    (''name'', JStr ''Anna''),
                    (''createdAt'', JStr (toISOString 1000)),
                    (''lastLogin'', JStr (toISOString 1000)),
                    (''role'', JStr ''user''),
                    (''totalProjects'', JNum 0),
                    (''settings'', JObj [(''theme'', JStr ''dark''), (''notifications'', JBool True)]),
                    (''projects'', JArr []),
                    (''updatedAt'', JStr (toISOString 3000))])],
         projects = []\<rparr>,
      calls = [DocUpdate Users [''u1'']
                 [(''name'', SetTo (JStr ''Anna'')), (''settings.theme'', SetTo (JStr ''dark'')),
                  (''updatedAt'', SetTo (JStr (toISOString 3000)))],
               DocGet Users [''u1'']]\<rparr>"
  by (simp add: update_user_def io_defs stripped_update_body doc_path_u1 env_at_no_fault
        coll_def put_coll_def registered_eval doc_update_def update_body_paths no_conflicts_def
        apply_updates_def get_prop_def max_depth_def)

lemma update_user_merge_example:
  "status (response (update_user (env_at 3000) registered ''u1'' update_body)) = 200
   \<and> map_of update_body ''uid'' = Some (JStr ''someone_else'')
   \<and> ''uid'' \<notin> fst ` set (stripped_updates (env_at 3000) update_body)
   \<and> (\<exists>p d d'. doc_path (JStr ''u1'') = Some p
           \<and> map_of (users registered) p = Some d
           \<and> map_of (users (store_after (update_user (env_at 3000) registered ''u1'' update_body))) p
               = Some d'
           \<and> json (response (update_user (env_at 3000) registered ''u1'' update_body))
               = [(''success'', JBool True), (''user'', JObj d'),
                  (''message'', JStr ''Profile updated successfully'')]
           \<and> get_prop d' ''name'' = JStr ''Anna''
           \<and> get_prop d' ''uid'' = get_prop d ''uid''
           \<and> get_prop d' ''email'' = get_prop d ''email''
           \<and> get_prop d' ''totalProjects'' = get_prop d ''totalProjects'')
   \<and> get_prop (snd (hd (users (store_after
          (update_user (env_at 3000) registered ''u1'' update_body))))) ''uid'' = JStr ''u1''"
proof -
  let ?out = "update_user (env_at 3000) registered ''u1'' update_body"
  let ?S = "stripped_updates (env_at 3000) update_body"
  have ok: "status (response ?out) = 200"
    by (simp add: updated_eval)
  note m = update_user_merge [of "env_at 3000" update_body registered "''u1''"]
  from m have k: "''uid'' \<notin> fst ` set ?S" by (elim conjE)
  from m ok obtain p d d' where
    p: "doc_path (JStr ''u1'') = Some p" and d: "map_of (users registered) p = Some d"
    and d': "map_of (users (store_after ?out)) p = Some d'"
    and j: "json (response ?out) = [(''success'', JBool True), (''user'', JObj d'),
                  (''message'', JStr ''Profile updated successfully'')]"
    and plain: "\<forall>k v. map_of ?S k = Some v \<and> CHR ''.'' \<notin> set k \<longrightarrow> get_prop d' k = v"
    and frame: "\<forall>f. (\<forall>k \<in> fst ` set ?S. takeWhile (\<lambda>ch. ch \<noteq> CHR ''.'') k \<noteq> f)
                  \<longrightarrow> get_prop d' f = get_prop d f"
    by (elim conjE impE exE) assumption+
  from plain have n: "get_prop d' ''name'' = JStr ''Anna''"
    by (simp add: stripped_update_body)
  from frame have f: "get_prop d' ''uid'' = get_prop d ''uid''"
    "get_prop d' ''email'' = get_prop d ''email''"
    "get_prop d' ''totalProjects'' = get_prop d ''totalProjects''"
    by (simp_all add: stripped_update_body)
  have u: "map_of update_body ''uid'' = Some (JStr ''someone_else'')"
    by (simp add: update_body_def)
  have s: "get_prop (snd (hd (users (store_after ?out)))) ''uid'' = JStr ''u1''"
    by (simp add: updated_eval get_prop_def)
  from p d d' j n f have "\<exists>p d d'. doc_path (JStr ''u1'') = Some p
           \<and> map_of (users registered) p = Some d
           \<and> map_of (users (store_after ?out)) p = Some d'
           \<and> json (response ?out)
               = [(''success'', JBool True), (''user'', JObj d'),
                  (''message'', JStr ''Profile updated successfully'')]
           \<and> get_prop d' ''name'' = JStr ''Anna''
           \<and> get_prop d' ''uid'' = get_prop d ''uid''
           \<and> get_prop d' ''email'' = get_prop d ''email''
           \<and> get_prop d' ''totalProjects'' = get_prop d ''totalProjects''"
    by blast
  with ok u k s show ?thesis by (intro conjI)
qed

subsection \<open>When the update succeeds\<close>

lemma upd_path_nested:
  "get_prop (upd_path [a, b] g d) a
   = JObj (AList.update b
            (g (get_prop (case get_prop d a of JObj sub \<Rightarrow> sub | _ \<Rightarrow> []) b))
            (case get_prop d a of JObj sub \<Rightarrow> sub | _ \<Rightarrow> []))"
  by (simp add: get_prop_update)

lemma those_map_Some: "those (map Some xs) = Some xs"
  by (induction xs) auto

lemma doc_update_succeeds:
  assumes "ups \<noteq> []"
    and "\<forall>u \<in> set ups. op_storable (snd u) \<and> field_path (fst u) \<noteq> None"
    and "no_conflicts (map (\<lambda>u. split_on (CHR ''.'') (fst u)) ups)"
    and "map_of c p = Some d"
  shows "doc_update add c p ups
         = Inr (AList.update p
                 (apply_updates add d (map (\<lambda>u. (split_on (CHR ''.'') (fst u), snd u)) ups)) c)"
proof -
  have "map (\<lambda>u. field_path (fst u)) ups
        = map Some (map (\<lambda>u. split_on (CHR ''.'') (fst u)) ups)"
    using assms(2) by (auto dest: field_path_Some)
  then have th: "those (map (\<lambda>u. field_path (fst u)) ups)
        = Some (map (\<lambda>u. split_on (CHR ''.'') (fst u)) ups)"
    by (simp only: those_map_Some)
  have z: "zip (map (\<lambda>u. split_on (CHR ''.'') (fst u)) ups) (map snd ups)
           = map (\<lambda>u. (split_on (CHR ''.'') (fst u), snd u)) ups"
    by (induction ups) auto
  from assms(2) have "list_all (\<lambda>u. op_storable (snd u)) ups"
    by (simp add: list_all_iff)
  with assms(1,3,4) show ?thesis
    by (simp add: doc_update_def th z)
qed

text \<open>The update succeeds when the user record exists, no store call throws, and the
  stripped field map holds values the store accepts under valid field paths of which
  none is a prefix of another. The stored record then is the old one with each key
  written at its field path, and the answer carries exactly that record.\<close>

lemma update_user_succeeds:
  assumes "doc_path (JStr userId) = Some p" and "map_of (users st) p = Some d"
    and "store_fault e 0 = None" and "store_fault e 1 = None"
    and "\<forall>kv \<in> set (stripped_updates e body). storable 1 (snd kv) \<and> field_path (fst kv) \<noteq> None"
    and "no_conflicts (map (\<lambda>kv. split_on (CHR ''.'') (fst kv)) (stripped_updates e body))"
  shows "update_user e st userId body =
           \<lparr>response =
              \<lparr>status = 200,
               json = [(''success'', JBool True),
                       (''user'', JObj (apply_updates (store_add e) d
                          (map (\<lambda>kv. (split_on (CHR ''.'') (fst kv), SetTo (snd kv)))
                             (stripped_updates e body)))),
                       (''message'', JStr ''Profile updated successfully'')]\<rparr>,
            store_after =
              st\<lparr>users := AList.update p
                   (apply_updates (store_add e) d
                      (map (\<lambda>kv. (split_on (CHR ''.'') (fst kv), SetTo (snd kv)))
                         (stripped_updates e body)))
                   (users st)\<rparr>,
            calls = [DocUpdate Users p
                       (map (\<lambda>kv. (fst kv, SetTo (snd kv))) (stripped_updates e body)),
                     DocGet Users p]\<rparr>"
proof -
  let ?S = "stripped_updates e body"
  let ?ups = "map (\<lambda>kv. (fst kv, SetTo (snd kv))) ?S"
  have ne: "?ups \<noteq> []"
    by (simp add: stripped_updates_def)
  have ok: "\<forall>u \<in> set ?ups. op_storable (snd u) \<and> field_path (fst u) \<noteq> None"
    using assms(5) by auto
  have nc: "no_conflicts (map (\<lambda>u. split_on (CHR ''.'') (fst u)) ?ups)"
    using assms(6) by (simp add: comp_def)
  have m: "map (\<lambda>u. (split_on (CHR ''.'') (fst u), snd u)) ?ups
           = map (\<lambda>kv. (split_on (CHR ''.'') (fst kv), SetTo (snd kv))) ?S"
    by simp
  note du = doc_update_succeeds [OF ne ok nc assms(2), of "store_add e", unfolded m]
  show ?thesis
    using assms(1,3,4)
    by (simp add: update_user_def io_defs coll_def put_coll_def du update_conv')
qed

lemma update_user_unknown:
  assumes "doc_path (JStr userId) = Some p" and "map_of (users st) p = None"
  shows "response (update_user e st userId body) = failure 500 ''Failed to update profile''"
    and "store_after (update_user e st userId body) = st"
  using assms
  by (auto simp: update_user_def io_defs coll_def put_coll_def doc_update_def
      split: option.splits sum.splits if_splits)

subsection \<open>Field paths into the protected fields\<close>

lemma stripped_dotted_body:
  "stripped_updates (env_at 3000) dotted_body
   = [(''uid.y'', JStr ''mallory''), (''email.x'', JStr ''eve@example.org''),
      (''updatedAt'', JStr (toISOString 3000))]"
  by (simp add: stripped_updates_def dotted_body_def env_at_def)

lemma dotted_body_paths:
  "field_path ''uid.y'' = Some [''uid'', ''y'']"
  "field_path ''email.x'' = Some [''email'', ''x'']"
  by (simp_all add: field_path_def)

lemma dotted_eval:
  "update_user (env_at 3000) registered ''u1'' dotted_body =
     \<lparr>response =
        \<lparr>status = 200,
         json = [(''success'', JBool True),
                 (''user'', JObj [(''uid'', JObj [(''y'', JStr ''mallory'')]),
                    (''email'', JObj [(''x'', JStr ''eve@example.org'')]),
                    (''name'', JStr ''Ann''),
                    (''createdAt'', JStr (toISOString 1000)),
                    (''lastLogin'', JStr (toISOString 1000)),
                    (''role'', JStr ''user''),
                    (''totalProjects'', JNum 0),
                    (''settings'', JObj [(''theme'', JStr ''light''), (''notifications'', JBool True)]),
                    (''projects'', JArr []),
                    (''updatedAt'', JStr (toISOString 3000))]),
                 (''message'', JStr ''Profile updated successfully'')]\<rparr>,
      store_after =
        \<lparr>users = [([''u1''],
                   [(''uid'', JObj [(''y'', JStr ''mallory'')]),
                    (''email'', JObj [(''x'', JStr ''eve@example.org'')]),
                    (''name'', JStr ''Ann''),
                    (''createdAt'', JStr (toISOString 1000)),
                    (''lastLogin'', JStr (toISOString 1000)),
                    (''role'', JStr ''user''),
                    (''totalProjects'', JNum 0),
                    (''settings'', JObj [(''theme'', JStr ''light''), (''notifications'', JBool True)]),
                    (''projects'', JArr []),
                    (''updatedAt'', JStr (toISOString 3000))])],
         projects = []\<rparr>,
      calls = [DocUpdate Users [''u1'']
                 [(''uid.y'', SetTo (JStr ''mallory'')),
                  (''email.x'', SetTo (JStr ''eve@example.org'')),
                  (''updatedAt'', SetTo (JStr (toISOString 3000)))],
               DocGet Users [''u1'']]\<rparr>"
  by (simp add: update_user_def io_defs stripped_dotted_body doc_path_u1 env_at_no_fault
        coll_def put_coll_def registered_eval doc_update_def dotted_body_paths update_body_paths
        no_conflicts_def apply_updates_def get_prop_def max_depth_def)

text \<open>
  Claim C4 says that an update-user request cannot change the id, the email or the
  creation timestamp: these fields are taken out of the incoming field map before the
  write, and only the remaining fields are merged into the stored record. The code
  deletes the three keys themselves, but the store's \<^verbatim>\<open>update\<close> reads every key as a
  field path, and a key such as \<^verbatim>\<open>uid.y\<close> is not deleted. For the registered user and a
  body with the keys \<^verbatim>\<open>uid.y\<close> and \<^verbatim>\<open>email.x\<close> the answer is 200, both keys reach
  \<^verbatim>\<open>update\<close>, and the stored \<^verbatim>\<open>uid\<close> and \<^verbatim>\<open>email\<close> are replaced by maps.
\<close>

theorem protected_fields_overwritten:
  "get_prop (snd (hd (users registered))) ''uid'' = JStr ''u1''
   \<and> get_prop (snd (hd (users registered))) ''email'' = JStr ''ann@example.org''
   \<and> status (response (update_user (env_at 3000) registered ''u1'' dotted_body)) = 200
   \<and> calls (update_user (env_at 3000) registered ''u1'' dotted_body)
       = [DocUpdate Users [''u1'']
            [(''uid.y'', SetTo (JStr ''mallory'')),
             (''email.x'', SetTo (JStr ''eve@example.org'')),
             (''updatedAt'', SetTo (JStr (toISOString 3000)))],
          DocGet Users [''u1'']]
   \<and> get_prop (snd (hd (users (store_after
          (update_user (env_at 3000) registered ''u1'' dotted_body))))) ''uid''
       = JObj [(''y'', JStr ''mallory'')]
   \<and> get_prop (snd (hd (users (store_after
          (update_user (env_at 3000) registered ''u1'' dotted_body))))) ''email''
       = JObj [(''x'', JStr ''eve@example.org'')]"
proof -
  have "get_prop (snd (hd (users registered))) ''uid'' = JStr ''u1''"
    and "get_prop (snd (hd (users registered))) ''email'' = JStr ''ann@example.org''"
    by (simp_all add: registered_eval get_prop_def)
  then show ?thesis
    by (simp add: dotted_eval get_prop_def)
qed

end
